theory Spec2Isabelle
  imports
    Main
    "HOL-Library.AList"
    "HOL-Library.Char_ord"
    "HOL-Library.List_Lexorder"
begin

section \<open>The data model of \<^verbatim>\<open>scripts/generate_api_docs.py\<close>\<close>

text \<open>
  The generator works on the Python value of a parsed JSON document: \<^verbatim>\<open>None\<close>,
  booleans, integers, floats, strings, lists and dicts with string keys. A dict is an
  association list in insertion order (a Python dict has distinct keys; lookup reads the
  first entry of a key, assignment rewrites it in place or appends). The code performs no
  arithmetic on floats, so a float is carried as its decimal literal: \<open>JFloat m e\<close> is
  \<open>m * 10^e\<close>. A string is the UTF-8 byte sequence of the Python \<^verbatim>\<open>str\<close>: equality,
  concatenation, \<^verbatim>\<open>strip('/')\<close>, \<^verbatim>\<open>split('/')\<close> and the order of \<^verbatim>\<open>sorted\<close> are the
  same on the bytes as on the code points. \<open>lower\<close> maps the ASCII letters.
\<close>

datatype json =
    JNull
  | JBool bool
  | JInt int
  | JFloat int int
  | JStr string
  | JArr "json list"
  | JObj "(string \<times> json) list"

text \<open>
  The exceptions the modelled code can raise. \<open>ReadError\<close> stands for whatever
  \<^verbatim>\<open>Path.read_text\<close> raises (an \<^verbatim>\<open>OSError\<close> or a \<^verbatim>\<open>UnicodeDecodeError\<close>).
  \<open>Unmodelled\<close> marks the places where a Python value would leave the data model
  (a dict with a non-string key).
\<close>

datatype error = AttributeError | TypeError | KeyError | ReadError | Unmodelled

definition bind :: "error + 'a \<Rightarrow> ('a \<Rightarrow> error + 'b) \<Rightarrow> error + 'b" where
  "bind m f = (case m of Inl e \<Rightarrow> Inl e | Inr x \<Rightarrow> f x)"

subsection \<open>Python string methods\<close>

definition lower_char :: "char \<Rightarrow> char" where
  "lower_char c =
     (if CHR ''A'' \<le> c \<and> c \<le> CHR ''Z'' then char_of (of_char c + (32::nat)) else c)"

definition upper_char :: "char \<Rightarrow> char" where
  "upper_char c =
     (if CHR ''a'' \<le> c \<and> c \<le> CHR ''z'' then char_of (of_char c - (32::nat)) else c)"

definition is_cased :: "char \<Rightarrow> bool" where
  "is_cased c = ((CHR ''A'' \<le> c \<and> c \<le> CHR ''Z'') \<or> (CHR ''a'' \<le> c \<and> c \<le> CHR ''z''))"

text \<open>\<^verbatim>\<open>s.lower()\<close>\<close>

definition lower :: "string \<Rightarrow> string" where
  "lower s = map lower_char s"

text \<open>\<^verbatim>\<open>s.startswith(p)\<close> and \<^verbatim>\<open>s.endswith(p)\<close>\<close>

fun startswith :: "string \<Rightarrow> string \<Rightarrow> bool" where
  "startswith s [] = True"
| "startswith [] (p # ps) = False"
| "startswith (c # cs) (p # ps) = (c = p \<and> startswith cs ps)"

definition endswith :: "string \<Rightarrow> string \<Rightarrow> bool" where
  "endswith s p = startswith (rev s) (rev p)"

text \<open>\<^verbatim>\<open>sub in s\<close> on strings: \<open>sub\<close> occurs in \<open>s\<close> as a contiguous substring.\<close>

fun str_contains :: "string \<Rightarrow> string \<Rightarrow> bool" where
  "str_contains sub [] = (sub = [])"
| "str_contains sub (c # cs) = (startswith (c # cs) sub \<or> str_contains sub cs)"

text \<open>\<^verbatim>\<open>s.strip(c)\<close> for a one-character argument.\<close>

definition strip_char :: "char \<Rightarrow> string \<Rightarrow> string" where
  "strip_char c s = rev (dropWhile (\<lambda>x. x = c) (rev (dropWhile (\<lambda>x. x = c) s)))"

text \<open>\<^verbatim>\<open>s.split(c)\<close> for a one-character separator: never the empty list.\<close>

fun split_char :: "char \<Rightarrow> string \<Rightarrow> string list" where
  "split_char c [] = [[]]"
| "split_char c (x # xs) =
     (if x = c then [] # split_char c xs
      else (case split_char c xs of
              [] \<Rightarrow> [[x]]
            | p # ps \<Rightarrow> (x # p) # ps))"

text \<open>
  \<^verbatim>\<open>s.title()\<close> on an ASCII string: a cased character that follows a cased character
  is lowered, any other character is uppercased. The flag is Python's
  \<^verbatim>\<open>previous_is_cased\<close>. Beyond ASCII \<^verbatim>\<open>str.title\<close> follows the Unicode character
  tables, which are no part of the program: where the code calls \<^verbatim>\<open>title\<close> on a string
  that it reads from its input, the model takes the method as a parameter \<open>title\<close>, and
  \<open>ascii_title\<close> is the instance for evaluating ASCII inputs.
\<close>

fun title_from :: "bool \<Rightarrow> string \<Rightarrow> string" where
  "title_from prev [] = []"
| "title_from prev (c # cs) =
     (if prev then lower_char c else upper_char c) # title_from (is_cased c) cs"

definition ascii_title :: "string \<Rightarrow> string" where
  "ascii_title s = title_from False s"

subsection \<open>Python container operations on JSON values\<close>

text \<open>\<^verbatim>\<open>d.get(k, default)\<close>: only a dict has the method.\<close>

definition py_get :: "json \<Rightarrow> string \<Rightarrow> json \<Rightarrow> error + json" where
  "py_get d k dflt =
     (case d of
        JObj kvs \<Rightarrow> (case map_of kvs k of None \<Rightarrow> Inr dflt | Some v \<Rightarrow> Inr v)
      | _ \<Rightarrow> Inl AttributeError)"

text \<open>
  \<^verbatim>\<open>'k' in c\<close> with a string literal on the left: key membership in a dict, element
  membership in a list, substring test in a string, \<^verbatim>\<open>TypeError\<close> otherwise.
\<close>

definition py_in :: "string \<Rightarrow> json \<Rightarrow> error + bool" where
  "py_in k c =
     (case c of
        JObj kvs \<Rightarrow> Inr (map_of kvs k \<noteq> None)
      | JArr xs \<Rightarrow> Inr (JStr k \<in> set xs)
      | JStr s \<Rightarrow> Inr (str_contains k s)
      | _ \<Rightarrow> Inl TypeError)"

text \<open>\<^verbatim>\<open>c['k']\<close> with a string literal key.\<close>

definition py_getitem :: "json \<Rightarrow> string \<Rightarrow> error + json" where
  "py_getitem c k =
     (case c of
        JObj kvs \<Rightarrow> (case map_of kvs k of None \<Rightarrow> Inl KeyError | Some v \<Rightarrow> Inr v)
      | _ \<Rightarrow> Inl TypeError)"

text \<open>\<^verbatim>\<open>c['k'] = v\<close> with a string literal key.\<close>

definition py_setitem :: "json \<Rightarrow> string \<Rightarrow> json \<Rightarrow> error + json" where
  "py_setitem c k v =
     (case c of
        JObj kvs \<Rightarrow> Inr (JObj (AList.update k v kvs))
      | _ \<Rightarrow> Inl TypeError)"

text \<open>\<^verbatim>\<open>d.items()\<close>\<close>

definition py_items :: "json \<Rightarrow> error + (string \<times> json) list" where
  "py_items d = (case d of JObj kvs \<Rightarrow> Inr kvs | _ \<Rightarrow> Inl AttributeError)"

section \<open>Example synthesis\<close>

text \<open>The default of \<^verbatim>\<open>schema.get('items', {'type': 'string'})\<close>.\<close>

definition default_items :: json where
  "default_items = JObj [(''type'', JStr ''string'')]"

text \<open>
  The three name-sensitive branches of \<^verbatim>\<open>_create_example_value\<close>, in the order of the
  source's \<^verbatim>\<open>if\<close>/\<^verbatim>\<open>elif\<close> chains. \<open>format_type\<close> is \<^verbatim>\<open>schema.get('format')\<close>,
  \<open>JNull\<close> when the key is absent.
\<close>

definition example_string :: "string \<Rightarrow> json \<Rightarrow> json" where
  "example_string field_name format_type =
     (if format_type = JStr ''email'' then JStr ''user@example.com''
      else if format_type = JStr ''date'' then JStr ''2023-12-01''
      else if format_type = JStr ''date-time'' then JStr ''2023-12-01T10:00:00Z''
      else if format_type = JStr ''uri'' then JStr ''https://example.com''
      else if str_contains ''password'' (lower field_name) then JStr ''SecurePassword123!''
      else if str_contains ''email'' (lower field_name) then JStr ''user@example.com''
      else if str_contains ''name'' (lower field_name) then JStr ''John Doe''
      else if str_contains ''title'' (lower field_name) then JStr ''Example Title''
      else if str_contains ''description'' (lower field_name)
        then JStr ''This is an example description''
      else if endswith field_name ''_id'' \<or> field_name = ''id'' then JStr ''abc123''
      else JStr (''example_'' @ field_name))"

definition example_integer :: "string \<Rightarrow> json" where
  "example_integer field_name =
     (if str_contains ''age'' (lower field_name) then JInt 25
      else if str_contains ''count'' (lower field_name) then JInt 10
      else if str_contains ''port'' (lower field_name) then JInt 8080
      else if endswith field_name ''_id'' \<or> field_name = ''id'' then JInt 123
      else JInt 42)"

definition example_number :: "string \<Rightarrow> json" where
  "example_number field_name =
     (if str_contains ''price'' (lower field_name) then JFloat 1999 (-2)
      else if str_contains ''percentage'' (lower field_name) then JFloat 755 (-1)
      else JFloat 314 (-2))"

text \<open>
  \<^verbatim>\<open>_create_example_value\<close> and \<^verbatim>\<open>_create_example_from_schema\<close> call each other;
  \<open>create_example_props\<close> is the loop over \<^verbatim>\<open>properties.items()\<close>. A schema that is
  not a dict has no \<^verbatim>\<open>get\<close>, a \<^verbatim>\<open>properties\<close> value that is not a dict has no
  \<^verbatim>\<open>items\<close>: both raise \<^verbatim>\<open>AttributeError\<close>.
\<close>

function create_example_value :: "string \<Rightarrow> json \<Rightarrow> error + json"
  and create_example_from_schema :: "json \<Rightarrow> error + json"
  and create_example_props :: "(string \<times> json) list \<Rightarrow> error + (string \<times> json) list"
where
  "create_example_value field_name schema =
     (case schema of
        JObj kvs \<Rightarrow>
          (let field_type = (case map_of kvs ''type'' of None \<Rightarrow> JStr ''string'' | Some t \<Rightarrow> t);
               format_type = (case map_of kvs ''format'' of None \<Rightarrow> JNull | Some f \<Rightarrow> f)
           in case map_of kvs ''example'' of
                Some ex \<Rightarrow> Inr ex
              | None \<Rightarrow>
                  if field_type = JStr ''string'' then Inr (example_string field_name format_type)
                  else if field_type = JStr ''integer'' then Inr (example_integer field_name)
                  else if field_type = JStr ''number'' then Inr (example_number field_name)
                  else if field_type = JStr ''boolean'' then Inr (JBool True)
                  else if field_type = JStr ''array'' then
                    (case create_example_value ''item''
                            (case map_of kvs ''items'' of None \<Rightarrow> default_items | Some it \<Rightarrow> it) of
                       Inl e \<Rightarrow> Inl e
                     | Inr v \<Rightarrow> Inr (JArr [v]))
                  else if field_type = JStr ''object'' then create_example_from_schema schema
                  else Inr JNull)
      | _ \<Rightarrow> Inl AttributeError)"
| "create_example_from_schema schema =
     (case schema of
        JObj kvs \<Rightarrow>
          if map_of kvs ''type'' = Some (JStr ''object'') then
            (case map_of kvs ''properties'' of
               None \<Rightarrow> Inr (JObj [])
             | Some (JObj props) \<Rightarrow>
                 (case create_example_props props of
                    Inl e \<Rightarrow> Inl e
                  | Inr ex \<Rightarrow> Inr (JObj ex))
             | Some _ \<Rightarrow> Inl AttributeError)
          else if map_of kvs ''type'' = Some (JStr ''array'') then
            (case create_example_value ''item''
                    (case map_of kvs ''items'' of None \<Rightarrow> default_items | Some it \<Rightarrow> it) of
               Inl e \<Rightarrow> Inl e
             | Inr v \<Rightarrow> Inr (JArr [v]))
          else create_example_value ''value'' schema
      | _ \<Rightarrow> Inl AttributeError)"
| "create_example_props [] = Inr []"
| "create_example_props ((prop_name, prop_schema) # rest) =
     (case create_example_value prop_name prop_schema of
        Inl e \<Rightarrow> Inl e
      | Inr v \<Rightarrow>
          (case create_example_props rest of
             Inl e \<Rightarrow> Inl e
           | Inr ex \<Rightarrow> Inr ((prop_name, v) # ex)))"
  by pat_completeness auto

text \<open>The measure that decreases along the mutual recursion.\<close>

definition is_object_schema :: "json \<Rightarrow> bool" where
  "is_object_schema s = (case s of JObj kvs \<Rightarrow> map_of kvs ''type'' = Some (JStr ''object'') | _ \<Rightarrow> False)"

definition example_measure :: "string \<times> json + json + (string \<times> json) list \<Rightarrow> nat" where
  "example_measure x =
     (case x of
        Inl (f, s) \<Rightarrow>
          (if s = default_items then 0 else 3 * size s + (if is_object_schema s then 2 else 0))
      | Inr (Inl s) \<Rightarrow> 3 * size s + 1
      | Inr (Inr kvs) \<Rightarrow> 3 * size (JObj kvs))"

lemma size_map_of: "map_of kvs k = Some v \<Longrightarrow> size v < size (JObj kvs)"
  by (induction kvs) (auto split: if_splits)

lemma size_JObj_pos: "0 < size (JObj kvs)"
  by simp

lemma type_not_default:
  "(case map_of kvs ''type'' of None \<Rightarrow> JStr ''string'' | Some t \<Rightarrow> t) \<noteq> JStr ''string''
   \<Longrightarrow> JObj kvs \<noteq> default_items"
  by (auto simp: default_items_def)

lemma measure_value_le: "example_measure (Inl (f, s)) \<le> 3 * size s + 2"
  by (simp add: example_measure_def)

lemma measure_value_lookup:
  "map_of kvs k = Some v \<Longrightarrow> example_measure (Inl (f, v)) < 3 * size (JObj kvs)"
  using measure_value_le [of f v] size_map_of [of kvs k v] by linarith

lemma measure_value_items:
  "example_measure
     (Inl (f, case map_of kvs ''items'' of None \<Rightarrow> default_items | Some it \<Rightarrow> it))
   < 3 * size (JObj kvs)"
proof (cases "map_of kvs ''items''")
  case None
  have "example_measure (Inl (f, default_items)) = 0"
    by (simp add: example_measure_def)
  with None size_JObj_pos [of kvs] show ?thesis by simp
next
  case (Some it)
  with measure_value_lookup [of kvs "''items''" it f] show ?thesis by simp
qed

lemma measure_value_nondefault:
  "s \<noteq> default_items \<Longrightarrow>
   example_measure (Inl (f, s)) = 3 * size s + (if is_object_schema s then 2 else 0)"
  by (simp add: example_measure_def)

lemma measure_from: "example_measure (Inr (Inl s)) = 3 * size s + 1"
  by (simp add: example_measure_def)

lemma measure_props: "example_measure (Inr (Inr kvs)) = 3 * size (JObj kvs)"
  by (simp add: example_measure_def)

termination create_example_value
proof (relation "measure example_measure")
  show "wf (measure example_measure)" by simp
next
  fix field_name :: string and schema x7 x xa
  assume "schema = JObj x7"
    and "x = (case map_of x7 ''type'' of None \<Rightarrow> JStr ''string'' | Some t \<Rightarrow> t)"
    and "x \<noteq> JStr ''string''"
  then have "schema \<noteq> default_items"
    using type_not_default [of x7] by simp
  then have "3 * size schema \<le> example_measure (Inl (field_name, schema))"
    by (simp add: measure_value_nondefault)
  with measure_value_items [of "''item''" x7] \<open>schema = JObj x7\<close>
  show "(Inl (''item'', case map_of x7 ''items'' of None \<Rightarrow> default_items | Some it \<Rightarrow> it),
         Inl (field_name, schema)) \<in> measure example_measure"
    by simp
next
  fix field_name :: string and schema x7 x xa
  assume s: "schema = JObj x7"
    and x: "x = (case map_of x7 ''type'' of None \<Rightarrow> JStr ''string'' | Some t \<Rightarrow> t)"
    and ns: "x \<noteq> JStr ''string''" and ob: "x = JStr ''object''"
  from s x ns have nd: "schema \<noteq> default_items"
    using type_not_default [of x7] by simp
  have "is_object_schema schema"
    using s x ob by (auto simp: is_object_schema_def split: option.splits)
  with nd have "example_measure (Inl (field_name, schema)) = 3 * size schema + 2"
    by (simp add: measure_value_nondefault)
  then show "(Inr (Inl schema), Inl (field_name, schema)) \<in> measure example_measure"
    by (simp add: measure_from)
next
  fix schema x7 x2 x7a
  assume "schema = JObj x7" and "map_of x7 ''properties'' = Some x2" and "x2 = JObj x7a"
  then have "size (JObj x7a) < size schema"
    using size_map_of [of x7 "''properties''" x2] by simp
  then show "(Inr (Inr x7a), Inr (Inl schema)) \<in> measure example_measure"
    unfolding in_measure measure_from measure_props by linarith
next
  fix schema x7
  assume "schema = JObj x7"
  with measure_value_items [of "''item''" x7]
  show "(Inl (''item'', case map_of x7 ''items'' of None \<Rightarrow> default_items | Some it \<Rightarrow> it),
         Inr (Inl schema)) \<in> measure example_measure"
    unfolding in_measure measure_from by simp
next
  fix schema x7
  assume "schema = JObj x7" and "map_of x7 ''type'' \<noteq> Some (JStr ''object'')"
  then have "\<not> is_object_schema schema"
    by (simp add: is_object_schema_def)
  then have "example_measure (Inl (''value'', schema)) \<le> 3 * size schema"
    by (simp add: example_measure_def)
  then show "(Inl (''value'', schema), Inr (Inl schema)) \<in> measure example_measure"
    unfolding in_measure measure_from by linarith
next
  fix prop_name :: string and prop_schema rest
  have "example_measure (Inl (prop_name, prop_schema))
        < 3 * size (JObj ((prop_name, prop_schema) # rest))"
    using measure_value_lookup [of "(prop_name, prop_schema) # rest" prop_name prop_schema prop_name]
    by simp
  then show "(Inl (prop_name, prop_schema), Inr (Inr ((prop_name, prop_schema) # rest)))
             \<in> measure example_measure"
    unfolding in_measure measure_props .
next
  fix prop_name :: string and prop_schema rest
  show "(Inr (Inr rest), Inr (Inr ((prop_name, prop_schema) # rest))) \<in> measure example_measure"
    unfolding in_measure measure_props by simp
qed

declare create_example_value.simps [simp del]
declare create_example_from_schema.simps [simp del]

subsection \<open>Minimal examples and the example tables\<close>

text \<open>
  \<^verbatim>\<open>for x in c\<close>: the elements of a list, the keys of a dict, the characters of a
  string; anything else is not iterable.
\<close>

definition py_iter :: "json \<Rightarrow> error + json list" where
  "py_iter c =
     (case c of
        JArr xs \<Rightarrow> Inr xs
      | JObj kvs \<Rightarrow> Inr (map (\<lambda>kv. JStr (fst kv)) kvs)
      | JStr s \<Rightarrow> Inr (map (\<lambda>ch. JStr [ch]) s)
      | _ \<Rightarrow> Inl TypeError)"

text \<open>
  The loop of \<^verbatim>\<open>_create_minimal_example\<close> over \<^verbatim>\<open>required_fields\<close>, with the dict
  \<^verbatim>\<open>example\<close> built so far. \<^verbatim>\<open>field_name in properties\<close> on a dict hashes the field
  name (a list or a dict is unhashable; any other non-string is never a key of a parsed
  JSON object); on a string it is a substring test, and the subscript that follows a
  hit raises. A list \<^verbatim>\<open>properties\<close> compares by Python's \<^verbatim>\<open>==\<close> and can be
  subscripted by an integer field name, which would build a dict with a non-string key:
  that case is \<open>Unmodelled\<close>.
\<close>

fun minimal_fields ::
  "json \<Rightarrow> json list \<Rightarrow> (string \<times> json) list \<Rightarrow> error + (string \<times> json) list" where
  "minimal_fields properties [] example = Inr example"
| "minimal_fields properties (field_name # rest) example =
     (case properties of
        JObj props \<Rightarrow>
          (case field_name of
             JStr name \<Rightarrow>
               (case map_of props name of
                  None \<Rightarrow> minimal_fields properties rest example
                | Some prop_schema \<Rightarrow>
                    (case create_example_value name prop_schema of
                       Inl e \<Rightarrow> Inl e
                     | Inr v \<Rightarrow> minimal_fields properties rest (AList.update name v example)))
           | JArr _ \<Rightarrow> Inl TypeError
           | JObj _ \<Rightarrow> Inl TypeError
           | _ \<Rightarrow> minimal_fields properties rest example)
      | JStr s \<Rightarrow>
          (case field_name of
             JStr name \<Rightarrow>
               if str_contains name s then Inl TypeError
               else minimal_fields properties rest example
           | _ \<Rightarrow> Inl TypeError)
      | JArr _ \<Rightarrow> Inl Unmodelled
      | _ \<Rightarrow> Inl TypeError)"

definition create_minimal_example :: "json \<Rightarrow> error + json" where
  "create_minimal_example schema =
     bind (py_get schema ''required'' (JArr [])) (\<lambda>required_fields.
     bind (py_get schema ''properties'' (JObj [])) (\<lambda>properties.
     bind (py_iter required_fields) (\<lambda>fields.
     bind (minimal_fields properties fields []) (\<lambda>example.
     Inr (JObj example)))))"

definition generate_examples_from_schema :: "json \<Rightarrow> error + json" where
  "generate_examples_from_schema schema =
     bind (py_get schema ''type'' JNull) (\<lambda>t.
     if t = JStr ''object'' then
       bind (create_example_from_schema schema) (\<lambda>example_data.
       bind (py_setitem (JObj []) ''example_1''
               (JObj [(''summary'', JStr ''Valid request example''),
                      (''description'', JStr ''A complete example with all available fields''),
                      (''value'', example_data)])) (\<lambda>examples.
       bind (py_in ''required'' schema) (\<lambda>has_required.
       if has_required then
         bind (create_minimal_example schema) (\<lambda>minimal_data.
         py_setitem examples ''minimal_example''
           (JObj [(''summary'', JStr ''Minimal request example''),
                  (''description'', JStr ''Example with only required fields''),
                  (''value'', minimal_data)]))
       else Inr examples)))
     else Inr (JObj []))"

definition generate_response_examples :: "string \<Rightarrow> json \<Rightarrow> error + json" where
  "generate_response_examples status_code schema =
     (if startswith status_code ''2'' then
        bind (create_example_from_schema schema) (\<lambda>v.
        Inr (JObj [(''success'',
               JObj [(''summary'', JStr ''Successful response''), (''value'', v)])]))
      else if startswith status_code ''4'' then
        Inr (JObj [(''error'',
               JObj [(''summary'', JStr ''Error response''),
                     (''value'',
                      JObj [(''error'', JStr ''Bad Request''),
                            (''message'', JStr ''Invalid input provided''),
                            (''details'', JArr [JStr ''Field validation failed''])])])])
      else if startswith status_code ''5'' then
        Inr (JObj [(''server_error'',
               JObj [(''summary'', JStr ''Server error response''),
                     (''value'',
                      JObj [(''error'', JStr ''Internal Server Error''),
                            (''message'', JStr ''An unexpected error occurred'')])])])
      else Inr (JObj []))"

section \<open>The enricher\<close>

text \<open>
  A \<^verbatim>\<open>for k, v in d.items()\<close> loop whose body mutates \<open>v\<close> in place: the body returns the
  mutated value, the first exception ends the loop.
\<close>

primrec map_items ::
  "(string \<Rightarrow> json \<Rightarrow> error + json) \<Rightarrow> (string \<times> json) list \<Rightarrow> error + (string \<times> json) list"
where
  "map_items f [] = Inr []"
| "map_items f (kv # rest) =
     bind (f (fst kv) (snd kv)) (\<lambda>v.
     bind (map_items f rest) (\<lambda>vs.
     Inr ((fst kv, v) # vs)))"

text \<open>
  The dict \<open>d\<close> after the object it stores under \<open>k\<close> was mutated in place into \<open>v\<close>.
  When the key is absent the mutated object was the default of \<^verbatim>\<open>get\<close>, which is not
  stored anywhere.
\<close>

definition mutated :: "json \<Rightarrow> string \<Rightarrow> json \<Rightarrow> json" where
  "mutated d k v =
     (case d of
        JObj kvs \<Rightarrow> (if map_of kvs k \<noteq> None then JObj (AList.update k v kvs) else d)
      | _ \<Rightarrow> d)"

text \<open>
  The body shared by the two inner loops of \<^verbatim>\<open>_enhance_operation\<close>:
  \<^verbatim>\<open>if 'schema' in content and 'examples' not in content: content['examples'] = gen(content['schema'])\<close>.
\<close>

definition enhance_content :: "(json \<Rightarrow> error + json) \<Rightarrow> json \<Rightarrow> error + json" where
  "enhance_content gen content =
     bind (py_in ''schema'' content) (\<lambda>has_schema.
     if has_schema then
       bind (py_in ''examples'' content) (\<lambda>has_examples.
       if \<not> has_examples then
         bind (py_getitem content ''schema'') (\<lambda>schema.
         bind (gen schema) (\<lambda>examples.
         py_setitem content ''examples'' examples))
       else Inr content)
     else Inr content)"

text \<open>
  \<^verbatim>\<open>for content_type, content in x.get('content', {}).items()\<close> with that body, for
  \<open>x\<close> the request body or one response; the result is \<open>x\<close> after the loop.
\<close>

definition enhance_contents :: "(json \<Rightarrow> error + json) \<Rightarrow> json \<Rightarrow> error + json" where
  "enhance_contents gen x =
     bind (py_get x ''content'' (JObj [])) (\<lambda>c.
     bind (py_items c) (\<lambda>items.
     bind (map_items (\<lambda>content_type content. enhance_content gen content) items) (\<lambda>items'.
     Inr (mutated x ''content'' (JObj items')))))"

definition enhance_operation :: "json \<Rightarrow> error + json" where
  "enhance_operation operation =
     bind (py_in ''requestBody'' operation) (\<lambda>has_body.
     bind (if has_body then
             bind (py_getitem operation ''requestBody'') (\<lambda>request_body.
             bind (enhance_contents generate_examples_from_schema request_body) (\<lambda>request_body'.
             Inr (mutated operation ''requestBody'' request_body')))
           else Inr operation) (\<lambda>operation1.
     bind (py_get operation1 ''responses'' (JObj [])) (\<lambda>responses.
     bind (py_items responses) (\<lambda>items.
     bind (map_items
             (\<lambda>status_code response.
                enhance_contents (generate_response_examples status_code) response) items)
          (\<lambda>items'.
     Inr (mutated operation1 ''responses'' (JObj items')))))))"

subsection \<open>Tag derivation\<close>

text \<open>The loop of \<^verbatim>\<open>_generate_tags_from_paths\<close> over \<^verbatim>\<open>paths.keys()\<close>, with the set built so far.\<close>

fun path_tags :: "string list \<Rightarrow> string set \<Rightarrow> string set" where
  "path_tags [] tags = tags"
| "path_tags (path # rest) tags =
     (let parts = split_char CHR ''/'' (strip_char CHR ''/'' path)
      in if parts \<noteq> [] \<and> hd parts \<noteq> [] then
           path_tags rest
             (insert (if hd parts = ''api'' \<and> length parts > 1 then parts ! 1 else hd parts) tags)
         else path_tags rest tags)"

text \<open>
  The entry \<^verbatim>\<open>{'name': tag, 'description': f'{tag.title()} operations'}\<close> of one tag;
  \<open>title\<close> is \<^verbatim>\<open>str.title\<close>.
\<close>

definition tag_entry :: "(string \<Rightarrow> string) \<Rightarrow> string \<Rightarrow> json" where
  "tag_entry title tag =
     JObj [(''name'', JStr tag), (''description'', JStr (title tag @ '' operations''))]"

definition generate_tags_from_paths :: "(string \<Rightarrow> string) \<Rightarrow> json \<Rightarrow> error + json" where
  "generate_tags_from_paths title paths =
     (case paths of
        JObj kvs \<Rightarrow>
          Inr (JArr (map (tag_entry title) (sorted_list_of_set (path_tags (map fst kvs) {}))))
      | _ \<Rightarrow> Inl AttributeError)"

text \<open>
  The tag of a path in the words of the specification: the first segment after stripping
  leading and trailing slashes; if the first segment is literally \<^verbatim>\<open>api\<close> and a second
  segment exists, the second segment. A path with an empty first segment has no tag.
\<close>

definition spec_path_tag :: "string \<Rightarrow> string option" where
  "spec_path_tag path =
     (case split_char CHR ''/'' (strip_char CHR ''/'' path) of
        [] \<Rightarrow> None
      | seg # segs \<Rightarrow>
          if seg = [] then None
          else if seg = ''api'' then
            (case segs of [] \<Rightarrow> Some seg | seg2 # _ \<Rightarrow> Some seg2)
          else Some seg)"

subsection \<open>\<^verbatim>\<open>_enhance_openapi_spec\<close>\<close>

definition default_servers :: json where
  "default_servers =
     JArr [JObj [(''url'', JStr ''http://localhost:8000''),
                 (''description'', JStr ''Development server'')],
           JObj [(''url'', JStr ''http://localhost:5000''),
                 (''description'', JStr ''Alternative development server'')],
           JObj [(''url'', JStr ''https://api.example.com''),
                 (''description'', JStr ''Production server'')]]"

definition default_contact :: json where
  "default_contact =
     JObj [(''name'', JStr ''API Support''),
           (''email'', JStr ''api-support@example.com''),
           (''url'', JStr ''https://example.com/support'')]"

definition default_license :: json where
  "default_license =
     JObj [(''name'', JStr ''MIT''), (''url'', JStr ''https://opensource.org/licenses/MIT'')]"

definition default_terms :: json where
  "default_terms = JStr ''https://example.com/terms''"

definition default_security_schemes :: json where
  "default_security_schemes =
     JObj [(''bearerAuth'',
            JObj [(''type'', JStr ''http''), (''scheme'', JStr ''bearer''),
                  (''bearerFormat'', JStr ''JWT'')]),
           (''apiKey'',
            JObj [(''type'', JStr ''apiKey''), (''in'', JStr ''header''),
                  (''name'', JStr ''X-API-Key'')])]"

text \<open>
  The dict display \<^verbatim>\<open>{**info, 'contact': ..., 'license': ..., 'termsOfService': ...}\<close>:
  the entries of \<open>info\<close>, then the three keys stored in this order; a later entry of a
  display replaces an earlier one of the same key. Unpacking a value that is not a
  mapping raises \<^verbatim>\<open>TypeError\<close>.
\<close>

definition merge_info :: "json \<Rightarrow> error + json" where
  "merge_info info =
     (case info of
        JObj kvs \<Rightarrow>
          Inr (JObj (AList.update ''termsOfService'' default_terms
                      (AList.update ''license'' default_license
                        (AList.update ''contact'' default_contact kvs))))
      | _ \<Rightarrow> Inl TypeError)"

definition enhance_paths :: "json \<Rightarrow> error + json" where
  "enhance_paths spec =
     bind (py_get spec ''paths'' (JObj [])) (\<lambda>paths.
     bind (py_items paths) (\<lambda>path_items.
     bind (map_items
             (\<lambda>path methods.
                bind (py_items methods) (\<lambda>method_items.
                bind (map_items (\<lambda>method operation. enhance_operation operation) method_items)
                     (\<lambda>method_items'.
                Inr (JObj method_items'))))
             path_items) (\<lambda>path_items'.
     Inr (mutated spec ''paths'' (JObj path_items')))))"

definition enhance_openapi_spec :: "(string \<Rightarrow> string) \<Rightarrow> json \<Rightarrow> error + json" where
  "enhance_openapi_spec title spec =
     bind (py_setitem spec ''servers'' default_servers) (\<lambda>spec1.
     bind (py_get spec1 ''info'' (JObj [])) (\<lambda>info.
     bind (merge_info info) (\<lambda>info'.
     bind (py_setitem spec1 ''info'' info') (\<lambda>spec2.
     bind (py_in ''components'' spec2) (\<lambda>has_components.
     bind (if \<not> has_components then py_setitem spec2 ''components'' (JObj [])
           else Inr spec2) (\<lambda>spec3.
     bind (py_getitem spec3 ''components'') (\<lambda>components.
     bind (py_in ''securitySchemes'' components) (\<lambda>has_schemes.
     bind (if \<not> has_schemes then
             bind (py_setitem components ''securitySchemes'' default_security_schemes)
                  (\<lambda>components'.
             Inr (mutated spec3 ''components'' components'))
           else Inr spec3) (\<lambda>spec4.
     bind (py_in ''tags'' spec4) (\<lambda>has_tags.
     bind (if \<not> has_tags then
             bind (py_get spec4 ''paths'' (JObj [])) (\<lambda>paths.
             bind (generate_tags_from_paths title paths) (\<lambda>tags.
             py_setitem spec4 ''tags'' tags))
           else Inr spec4) (\<lambda>spec5.
     enhance_paths spec5)))))))))))"

section \<open>The specification builder\<close>

definition get_base_spec :: json where
  "get_base_spec =
     JObj [(''openapi'', JStr ''3.0.0''),
           (''info'',
            JObj [(''title'', JStr ''API Documentation''),
                  (''version'', JStr ''1.0.0''),
                  (''description'',
                   JStr ''Comprehensive API documentation generated automatically'')]),
           (''paths'', JObj []),
           (''components'', JObj [(''schemas'', JObj []), (''securitySchemes'', JObj [])])]"

subsection \<open>Route insertion\<close>

text \<open>
  The route dict that \<^verbatim>\<open>_extract_flask_routes\<close> appends for a matched declaration:
  all four keys are always stored, \<^verbatim>\<open>'docstring'\<close> with the value \<^verbatim>\<open>None\<close> when
  \<^verbatim>\<open>_extract_docstring\<close> found no doc comment.
\<close>

definition route_record :: "string \<Rightarrow> string list \<Rightarrow> string \<Rightarrow> string option \<Rightarrow> json" where
  "route_record path methods func docstring =
     JObj [(''path'', JStr path),
           (''methods'', JArr (map JStr methods)),
           (''function'', JStr func),
           (''docstring'', (case docstring of None \<Rightarrow> JNull | Some d \<Rightarrow> JStr d))]"

text \<open>\<^verbatim>\<open>x.split('\n')[0]\<close>: only a string has \<^verbatim>\<open>split\<close>.\<close>

definition first_line :: "json \<Rightarrow> error + json" where
  "first_line x =
     (case x of
        JStr s \<Rightarrow> Inr (JStr (hd (split_char (CHR 0x0A) s)))
      | _ \<Rightarrow> Inl AttributeError)"

text \<open>Python truthiness of a JSON value.\<close>

definition py_truthy :: "json \<Rightarrow> bool" where
  "py_truthy x =
     (case x of
        JNull \<Rightarrow> False
      | JBool b \<Rightarrow> b
      | JInt i \<Rightarrow> i \<noteq> 0
      | JFloat m e \<Rightarrow> m \<noteq> 0
      | JStr s \<Rightarrow> s \<noteq> []
      | JArr xs \<Rightarrow> xs \<noteq> []
      | JObj kvs \<Rightarrow> kvs \<noteq> [])"

definition object_schema_content :: json where
  "object_schema_content =
     JObj [(''application/json'', JObj [(''schema'', JObj [(''type'', JStr ''object'')])])]"

text \<open>
  The operation that the loop body of \<^verbatim>\<open>_add_route_to_spec\<close> builds for one method,
  with its lowercase method. The f-string of the \<^verbatim>\<open>operationId\<close> is modelled for a
  string handler name, which is what the extractor stores.
\<close>

definition route_operation :: "json \<Rightarrow> string \<Rightarrow> string \<Rightarrow> error + string \<times> json" where
  "route_operation route path method =
     (let method_lower = lower method in
      bind (py_get route ''docstring'' (JStr (method @ '' '' @ path))) (\<lambda>doc.
      bind (first_line doc) (\<lambda>summary.
      bind (py_getitem route ''function'') (\<lambda>func.
      bind (case func of
              JStr f \<Rightarrow> Inr (JStr (method_lower @ ''_'' @ f))
            | _ \<Rightarrow> Inl Unmodelled) (\<lambda>operation_id.
      bind (py_get route ''docstring'' JNull) (\<lambda>docstring.
      let operation =
            [(''summary'', summary),
             (''operationId'', operation_id),
             (''responses'',
              JObj [(''200'',
                     JObj [(''description'', JStr ''Successful response''),
                           (''content'', object_schema_content)])])];
          operation1 =
            (if py_truthy docstring then AList.update ''description'' docstring operation
             else operation);
          operation2 =
            (if method_lower \<in> set [''post'', ''put'', ''patch'']
             then AList.update ''requestBody'' (JObj [(''content'', object_schema_content)])
                    operation1
             else operation1)
      in Inr (method_lower, JObj operation2)))))))"

lemma bind_cong [fundef_cong]:
  "m = m' \<Longrightarrow> (\<And>x. m' = Inr x \<Longrightarrow> f x = f' x) \<Longrightarrow> bind m f = bind m' f'"
  by (auto simp: bind_def split: sum.splits)

text \<open>
  The loop \<^verbatim>\<open>for method in route['methods']\<close>, with the specification as it is before
  the iteration; \<^verbatim>\<open>method.lower()\<close> needs a string.
\<close>

fun add_methods :: "json \<Rightarrow> string \<Rightarrow> json list \<Rightarrow> json \<Rightarrow> error + json" where
  "add_methods route path [] spec = Inr spec"
| "add_methods route path (m # rest) spec =
     (case m of
        JStr method \<Rightarrow>
          bind (route_operation route path method) (\<lambda>mo.
          bind (py_getitem spec ''paths'') (\<lambda>paths.
          bind (py_getitem paths path) (\<lambda>entry.
          bind (py_setitem entry (fst mo) (snd mo)) (\<lambda>entry'.
          add_methods route path rest
            (mutated spec ''paths'' (mutated paths path entry'))))))
      | _ \<Rightarrow> Inl AttributeError)"

definition add_route_to_spec :: "json \<Rightarrow> json \<Rightarrow> error + json" where
  "add_route_to_spec spec route =
     bind (py_getitem route ''path'') (\<lambda>p.
     case p of
       JStr path \<Rightarrow>
         bind (py_getitem spec ''paths'') (\<lambda>paths.
         bind (py_in path paths) (\<lambda>present.
         bind (if \<not> present then
                 bind (py_setitem paths path (JObj [])) (\<lambda>paths'.
                 Inr (mutated spec ''paths'' paths'))
               else Inr spec) (\<lambda>spec1.
         bind (py_getitem route ''methods'') (\<lambda>methods.
         bind (py_iter methods) (\<lambda>ms.
         add_methods route path ms spec1)))))
     | _ \<Rightarrow> Inl Unmodelled)"

subsection \<open>Doc comments\<close>

text \<open>\<^verbatim>\<open>str.isspace\<close> on the ASCII range, and \<^verbatim>\<open>s.strip()\<close>.\<close>

definition is_space :: "char \<Rightarrow> bool" where
  "is_space c \<longleftrightarrow>
     c \<in> set [CHR 0x09, CHR 0x0A, CHR 0x0B, CHR 0x0C, CHR 0x0D,
              CHR 0x1C, CHR 0x1D, CHR 0x1E, CHR 0x1F, CHR 0x20]"

definition strip :: "string \<Rightarrow> string" where
  "strip s = rev (dropWhile is_space (rev (dropWhile is_space s)))"

text \<open>\<^verbatim>\<open>'\n'.join(lines)\<close>\<close>

fun join_lines :: "string list \<Rightarrow> string" where
  "join_lines [] = []"
| "join_lines [l] = l"
| "join_lines (l # ls) = l @ [CHR 0x0A] @ join_lines ls"

text \<open>
  The second loop of \<^verbatim>\<open>_extract_docstring\<close>: the stripped lines up to the one that ends
  with the quote, which loses its last three characters; all the lines that are left when
  none does.
\<close>

fun docstring_lines :: "string \<Rightarrow> string list \<Rightarrow> string list" where
  "docstring_lines quote [] = []"
| "docstring_lines quote (l # ls) =
     (let line = strip l in
      if endswith line quote then [take (length line - 3) line]
      else line # docstring_lines quote ls)"

definition extract_docstring :: "string list \<Rightarrow> nat \<Rightarrow> string option" where
  "extract_docstring lines start_line =
     (if start_line \<ge> length lines then None
      else
        (case dropWhile (\<lambda>l. strip l = []) (drop start_line lines) of
           [] \<Rightarrow> None
         | l # rest \<Rightarrow>
             (let line = strip l in
              if startswith line [CHR 0x22, CHR 0x22, CHR 0x22] \<or>
                 startswith line [CHR 0x27, CHR 0x27, CHR 0x27]
              then
                (let quote = take 3 line in
                 if endswith line quote \<and> length line > 6
                 then Some (strip (drop 3 (take (length line - 3) line)))
                 else Some (strip (join_lines (drop 3 line # docstring_lines quote rest))))
              else None)))"

text \<open>A handler without a doc comment, as the lines of its file.\<close>

definition users_handler :: "string list" where
  "users_handler =
     [''@app.route('' @ [CHR 0x27] @ ''/users'' @ [CHR 0x27] @ '')'',
      ''def list_users():'',
      ''    return []'']"

section \<open>The framework detector\<close>

text \<open>
  What \<^verbatim>\<open>detect_framework\<close> sees of the project root: for each of the three manifest
  paths whether it exists and whether \<^verbatim>\<open>read_text\<close> returns its text or raises, and
  the same for the files that \<^verbatim>\<open>rglob("*.py")\<close> yields, in its order.
\<close>

datatype file_state = Missing | Unreadable | Readable string

record project =
  requirements_txt :: file_state
  requirements_dev_txt :: file_state
  pyproject_toml :: file_state
  py_files :: "file_state list"

text \<open>
  The first loop: \<open>Inr (Some fw)\<close> is \<^verbatim>\<open>return fw\<close>, \<open>Inr None\<close> is the loop running to
  its end. \<^verbatim>\<open>read_text\<close> is called outside any \<^verbatim>\<open>try\<close>.
\<close>

fun scan_requirements :: "file_state list \<Rightarrow> error + string option" where
  "scan_requirements [] = Inr None"
| "scan_requirements (Missing # rest) = scan_requirements rest"
| "scan_requirements (Unreadable # rest) = Inl ReadError"
| "scan_requirements (Readable text # rest) =
     (let content = lower text in
      if str_contains ''fastapi'' content then Inr (Some ''fastapi'')
      else if str_contains ''flask-restx'' content then Inr (Some ''flask-restx'')
      else if str_contains ''djangorestframework'' content then Inr (Some ''django-drf'')
      else if str_contains ''flask'' content then Inr (Some ''flask'')
      else scan_requirements rest)"

text \<open>The second loop: its \<^verbatim>\<open>try\<close>/\<^verbatim>\<open>except: continue\<close> skips a file that cannot be read.\<close>

fun scan_py_files :: "file_state list \<Rightarrow> string option" where
  "scan_py_files [] = None"
| "scan_py_files (Readable content # rest) =
     (if str_contains ''from fastapi import'' content \<or> str_contains ''import fastapi'' content
        then Some ''fastapi''
      else if str_contains ''from flask_restx import'' content then Some ''flask-restx''
      else if str_contains ''from rest_framework'' content then Some ''django-drf''
      else if str_contains ''from flask import'' content then Some ''flask''
      else scan_py_files rest)"
| "scan_py_files (_ # rest) = scan_py_files rest"

definition detect_framework :: "project \<Rightarrow> error + string" where
  "detect_framework p =
     bind (scan_requirements [requirements_txt p, requirements_dev_txt p, pyproject_toml p])
       (\<lambda>r. case r of
               Some fw \<Rightarrow> Inr fw
             | None \<Rightarrow>
                 (case scan_py_files (py_files p) of
                    Some fw \<Rightarrow> Inr fw
                  | None \<Rightarrow> Inr ''unknown''))"

section \<open>Example synthesis: properties\<close>

text \<open>An explicit \<^verbatim>\<open>example\<close> key wins in \<^verbatim>\<open>_create_example_value\<close>, whatever the type.\<close>

lemma create_example_value_example:
  "map_of kvs ''example'' = Some ex \<Longrightarrow> create_example_value field_name (JObj kvs) = Inr ex"
  by (simp add: create_example_value.simps)

text \<open>
  Claim C6 (an explicit \<^verbatim>\<open>example\<close> key of the schema is returned verbatim by both
  \<^verbatim>\<open>_create_example_value\<close> and \<^verbatim>\<open>_create_example_from_schema\<close>, whatever the
  schema's type). \<^verbatim>\<open>_create_example_from_schema\<close> dispatches on the type before any look
  at the key: on an object schema that carries the example \<^verbatim>\<open>{"id": 7}\<close> it synthesizes
  \<^verbatim>\<open>{"id": 123}\<close> from the properties instead. The same schema, reached as the schema
  of a field through \<^verbatim>\<open>_create_example_value\<close>, yields the example
  (\<open>create_example_value_example\<close>).
\<close>

theorem create_example_from_schema_ignores_example:
  "create_example_from_schema
     (JObj [(''type'', JStr ''object''),
            (''example'', JObj [(''id'', JInt 7)]),
            (''properties'', JObj [(''id'', JObj [(''type'', JStr ''integer'')])])])
   = Inr (JObj [(''id'', JInt 123)])"
  by code_simp

text \<open>
  Claim C7 (which heuristic rule fires depends only on the lowercased field name; an
  integer field named \<^verbatim>\<open>ID\<close> or ending in \<^verbatim>\<open>_ID\<close> gets the id placeholder 123 like
  \<^verbatim>\<open>id\<close>). The substring rules lowercase the field name, the id rule compares the
  name as it is: \<^verbatim>\<open>ID\<close> and \<^verbatim>\<open>id\<close> have the same lowercase form, \<^verbatim>\<open>id\<close> yields 123,
  \<^verbatim>\<open>ID\<close> and \<^verbatim>\<open>user_ID\<close> fall through to the generic 42.
\<close>

theorem id_rule_case_sensitive:
  "lower ''ID'' = lower ''id'' \<and>
   create_example_value ''id'' (JObj [(''type'', JStr ''integer'')]) = Inr (JInt 123) \<and>
   create_example_value ''ID'' (JObj [(''type'', JStr ''integer'')]) = Inr (JInt 42) \<and>
   create_example_value ''user_ID'' (JObj [(''type'', JStr ''integer'')]) = Inr (JInt 42)"
  by code_simp

text \<open>
  Claim C9: the object schema with the properties \<^verbatim>\<open>email\<close> (string), \<^verbatim>\<open>age\<close>
  (integer) and \<^verbatim>\<open>active\<close> (boolean) synthesizes to exactly
  \<^verbatim>\<open>{"email": "user@example.com", "age": 25, "active": true}\<close>: the email and age name
  rules fire, a boolean is \<^verbatim>\<open>true\<close>.
\<close>

theorem create_example_object_schema:
  "create_example_from_schema
     (JObj [(''type'', JStr ''object''),
            (''properties'',
             JObj [(''email'', JObj [(''type'', JStr ''string'')]),
                   (''age'', JObj [(''type'', JStr ''integer'')]),
                   (''active'', JObj [(''type'', JStr ''boolean'')])])])
   = Inr (JObj [(''email'', JStr ''user@example.com''),
                (''age'', JInt 25),
                (''active'', JBool True)])"
  by code_simp

text \<open>
  Claim C10: for every field name and every schema without an \<^verbatim>\<open>example\<close> key whose
  \<^verbatim>\<open>type\<close> value is none of string, integer, number, boolean, array and object,
  \<^verbatim>\<open>_create_example_value\<close> returns \<^verbatim>\<open>None\<close> and does not raise.
\<close>

theorem create_example_value_unknown_type:
  assumes "map_of kvs ''example'' = None"
    and "map_of kvs ''type'' = Some t"
    and "t \<notin> set [JStr ''string'', JStr ''integer'', JStr ''number'', JStr ''boolean'',
                   JStr ''array'', JStr ''object'']"
  shows "create_example_value field_name (JObj kvs) = Inr JNull"
  using assms by (simp add: create_example_value.simps)

theorem create_example_value_unknown_type_witness:
  "map_of [(''type'', JStr ''null'')] ''example'' = None \<and>
   map_of [(''type'', JStr ''null'')] ''type'' = Some (JStr ''null'') \<and>
   JStr ''null'' \<notin> set [JStr ''string'', JStr ''integer'', JStr ''number'', JStr ''boolean'',
                          JStr ''array'', JStr ''object''] \<and>
   create_example_value ''anything'' (JObj [(''type'', JStr ''null'')]) = Inr JNull"
proof -
  have a: "map_of [(''type'', JStr ''null'')] ''example'' = None" by simp
  have b: "map_of [(''type'', JStr ''null'')] ''type'' = Some (JStr ''null'')" by simp
  have c: "JStr ''null'' \<notin> set [JStr ''string'', JStr ''integer'', JStr ''number'',
                                  JStr ''boolean'', JStr ''array'', JStr ''object'']" by simp
  from create_example_value_unknown_type [OF a b c, of "''anything''"] a b c
  show ?thesis by blast
qed

section \<open>The framework detector: properties\<close>

lemma scan_py_files_kinds:
  "scan_py_files fs = Some fw \<Longrightarrow> fw \<in> {''fastapi'', ''flask-restx'', ''django-drf'', ''flask''}"
  by (induction fs rule: scan_py_files.induct) (auto split: if_splits)

lemma scan_requirements_kinds:
  "scan_requirements fs = Inr (Some fw) \<Longrightarrow>
   fw \<in> {''fastapi'', ''flask-restx'', ''django-drf'', ''flask''}"
  by (induction fs rule: scan_requirements.induct) (auto simp: Let_def split: if_splits)

lemma scan_requirements_readable:
  "Unreadable \<notin> set fs \<Longrightarrow> \<exists>r. scan_requirements fs = Inr r"
  by (induction fs rule: scan_requirements.induct) (auto simp: Let_def)

text \<open>
  With manifests that are missing or readable the detector returns a framework kind or
  \<^verbatim>\<open>unknown\<close>, whatever the source files are: an unreadable source file is skipped.
\<close>

lemma detect_framework_readable_manifests:
  assumes "requirements_txt p \<noteq> Unreadable" "requirements_dev_txt p \<noteq> Unreadable"
    "pyproject_toml p \<noteq> Unreadable"
  shows "\<exists>fw. detect_framework p = Inr fw \<and>
           fw \<in> {''fastapi'', ''flask-restx'', ''django-drf'', ''flask'', ''unknown''}"
proof -
  from assms obtain r where r:
    "scan_requirements [requirements_txt p, requirements_dev_txt p, pyproject_toml p] = Inr r"
    using scan_requirements_readable
      [of "[requirements_txt p, requirements_dev_txt p, pyproject_toml p]"]
    by auto
  show ?thesis
  proof (cases r)
    case None
    with r show ?thesis
      using scan_py_files_kinds [of "py_files p"]
      by (auto simp: detect_framework_def bind_def split: option.splits)
  next
    case (Some fw)
    with r scan_requirements_kinds [of _ fw] show ?thesis
      by (auto simp: detect_framework_def bind_def)
  qed
qed

text \<open>
  Claim C4 (\<^verbatim>\<open>detect_framework\<close> never raises; a file that cannot be read is only
  skipped). The loop over the source files has a \<^verbatim>\<open>try\<close>, the loop over the manifests
  has none: with a \<^verbatim>\<open>requirements.txt\<close> that exists and cannot be read the call raises,
  although a readable source file imports Flask.
\<close>

theorem detect_framework_unreadable_manifest:
  "detect_framework
     \<lparr>requirements_txt = Unreadable, requirements_dev_txt = Missing,
      pyproject_toml = Missing, py_files = [Readable ''from flask import Flask'']\<rparr>
   = Inl ReadError"
  by code_simp

section \<open>Tag derivation: properties\<close>

lemma path_tags_Cons:
  "path_tags (path # rest) tags =
   path_tags rest (case spec_path_tag path of None \<Rightarrow> tags | Some t \<Rightarrow> insert t tags)"
  by (simp add: spec_path_tag_def Let_def split: list.splits)

lemma path_tags_eq:
  "path_tags keys tags = tags \<union> {t. \<exists>p. p \<in> set keys \<and> spec_path_tag p = Some t}"
proof (induction keys arbitrary: tags)
  case Nil
  show ?case by simp
next
  case (Cons path rest)
  show ?case
    unfolding path_tags_Cons Cons.IH by (cases "spec_path_tag path") auto
qed

lemma finite_path_tags: "finite tags \<Longrightarrow> finite (path_tags keys tags)"
proof (induction keys arbitrary: tags)
  case Nil
  then show ?case by simp
next
  case (Cons path rest)
  then show ?case
    unfolding path_tags_Cons by (cases "spec_path_tag path") auto
qed

lemma four_paths_tags:
  "sorted_list_of_set (path_tags [''/users'', ''/api/orders'', ''/api'', ''/health''] {})
   = [''api'', ''health'', ''orders'', ''users'']"
  by code_simp

text \<open>
  Claim C8: for every paths mapping, \<^verbatim>\<open>_generate_tags_from_paths\<close> returns one
  \<^verbatim>\<open>{name, description: "{Name.title()} operations"}\<close> entry per distinct tag, sorted by
  name (Python's string order, which is the order of the code points), where the tag of a
  path is the one the specification describes (\<open>spec_path_tag\<close>). This holds whatever
  \<^verbatim>\<open>str.title\<close> computes. The paths \<^verbatim>\<open>/users\<close>, \<^verbatim>\<open>/api/orders\<close>, \<^verbatim>\<open>/api\<close>,
  \<^verbatim>\<open>/health\<close> yield exactly the tags api, health, orders, users, with the descriptions
  \<^verbatim>\<open>Api operations\<close>, \<^verbatim>\<open>Health operations\<close>, \<^verbatim>\<open>Orders operations\<close>,
  \<^verbatim>\<open>Users operations\<close> for the title of these ASCII names.
\<close>

theorem generate_tags_from_paths_sorted:
  "(\<exists>names.
      generate_tags_from_paths title (JObj kvs) =
        Inr (JArr (map (\<lambda>name. JObj [(''name'', JStr name),
                                     (''description'', JStr (title name @ '' operations''))])
                    names)) \<and>
      sorted names \<and> distinct names \<and>
      set names = {t. \<exists>p. p \<in> fst ` set kvs \<and> spec_path_tag p = Some t}) \<and>
   generate_tags_from_paths title
     (JObj [(''/users'', JObj []), (''/api/orders'', JObj []),
            (''/api'', JObj []), (''/health'', JObj [])])
   = Inr (JArr [JObj [(''name'', JStr ''api''),
                      (''description'', JStr (title ''api'' @ '' operations''))],
                JObj [(''name'', JStr ''health''),
                      (''description'', JStr (title ''health'' @ '' operations''))],
                JObj [(''name'', JStr ''orders''),
                      (''description'', JStr (title ''orders'' @ '' operations''))],
                JObj [(''name'', JStr ''users''),
                      (''description'', JStr (title ''users'' @ '' operations''))]]) \<and>
   generate_tags_from_paths ascii_title
     (JObj [(''/users'', JObj []), (''/api/orders'', JObj []),
            (''/api'', JObj []), (''/health'', JObj [])])
   = Inr (JArr [JObj [(''name'', JStr ''api''), (''description'', JStr ''Api operations'')],
                JObj [(''name'', JStr ''health''), (''description'', JStr ''Health operations'')],
                JObj [(''name'', JStr ''orders''), (''description'', JStr ''Orders operations'')],
                JObj [(''name'', JStr ''users''), (''description'', JStr ''Users operations'')]])"
proof (intro conjI)
  let ?names = "sorted_list_of_set (path_tags (map fst kvs) {})"
  have "generate_tags_from_paths title (JObj kvs) =
        Inr (JArr (map (\<lambda>name. JObj [(''name'', JStr name),
                                     (''description'', JStr (title name @ '' operations''))])
                    ?names))"
    by (simp add: generate_tags_from_paths_def tag_entry_def [abs_def])
  moreover have "sorted ?names" and "distinct ?names" by simp_all
  moreover have "set ?names = {t. \<exists>p. p \<in> fst ` set kvs \<and> spec_path_tag p = Some t}"
    using finite_path_tags [of "{}" "map fst kvs"] by (simp add: path_tags_eq)
  ultimately show "\<exists>names.
      generate_tags_from_paths title (JObj kvs) =
        Inr (JArr (map (\<lambda>name. JObj [(''name'', JStr name),
                                     (''description'', JStr (title name @ '' operations''))])
                    names)) \<and>
      sorted names \<and> distinct names \<and>
      set names = {t. \<exists>p. p \<in> fst ` set kvs \<and> spec_path_tag p = Some t}"
    by blast
next
  show "generate_tags_from_paths title
     (JObj [(''/users'', JObj []), (''/api/orders'', JObj []),
            (''/api'', JObj []), (''/health'', JObj [])])
   = Inr (JArr [JObj [(''name'', JStr ''api''),
                      (''description'', JStr (title ''api'' @ '' operations''))],
                JObj [(''name'', JStr ''health''),
                      (''description'', JStr (title ''health'' @ '' operations''))],
                JObj [(''name'', JStr ''orders''),
                      (''description'', JStr (title ''orders'' @ '' operations''))],
                JObj [(''name'', JStr ''users''),
                      (''description'', JStr (title ''users'' @ '' operations''))]])"
    unfolding generate_tags_from_paths_def json.case list.map fst_conv four_paths_tags
    by (simp add: tag_entry_def)
next
  show "generate_tags_from_paths ascii_title
     (JObj [(''/users'', JObj []), (''/api/orders'', JObj []),
            (''/api'', JObj []), (''/health'', JObj [])])
   = Inr (JArr [JObj [(''name'', JStr ''api''), (''description'', JStr ''Api operations'')],
                JObj [(''name'', JStr ''health''), (''description'', JStr ''Health operations'')],
                JObj [(''name'', JStr ''orders''), (''description'', JStr ''Orders operations'')],
                JObj [(''name'', JStr ''users''), (''description'', JStr ''Users operations'')]])"
    by code_simp
qed

section \<open>The enricher: properties\<close>

subsection \<open>Rules for the error monad and the container operations\<close>

lemma bind_Inr [simp]: "bind (Inr x) f = f x"
  by (simp add: bind_def)

lemma bind_Inl [simp]: "bind (Inl e) f = Inl e"
  by (simp add: bind_def)

lemma bind_eq_Inr: "bind m f = Inr y \<longleftrightarrow> (\<exists>x. m = Inr x \<and> f x = Inr y)"
  by (cases m) simp_all

lemma bind_assoc: "bind (bind m f) g = bind m (\<lambda>x. bind (f x) g)"
  by (cases m) simp_all

lemma py_setitem_JObj [simp]: "py_setitem (JObj kvs) k v = Inr (JObj (AList.update k v kvs))"
  by (simp add: py_setitem_def)

lemma py_get_JObj [simp]:
  "py_get (JObj kvs) k d = Inr (case map_of kvs k of None \<Rightarrow> d | Some v \<Rightarrow> v)"
  by (simp add: py_get_def split: option.splits)

lemma py_in_JObj [simp]: "py_in k (JObj kvs) = Inr (map_of kvs k \<noteq> None)"
  by (simp add: py_in_def)

lemma py_getitem_JObj [simp]:
  "py_getitem (JObj kvs) k = (case map_of kvs k of None \<Rightarrow> Inl KeyError | Some v \<Rightarrow> Inr v)"
  by (simp add: py_getitem_def)

lemma py_items_JObj [simp]: "py_items (JObj kvs) = Inr kvs"
  by (simp add: py_items_def)

lemma mutated_JObj [simp]:
  "mutated (JObj kvs) k v = (if map_of kvs k \<noteq> None then JObj (AList.update k v kvs) else JObj kvs)"
  by (simp add: mutated_def)

lemma py_get_InrD: "py_get d k dflt = Inr v \<Longrightarrow> \<exists>kvs. d = JObj kvs"
  by (cases d) (simp_all add: py_get_def)

lemma py_items_InrD: "py_items d = Inr kvs \<Longrightarrow> d = JObj kvs"
  by (cases d) (simp_all add: py_items_def)

lemma py_setitem_InrD: "py_setitem d k v = Inr d' \<Longrightarrow> \<exists>kvs. d = JObj kvs"
  by (cases d) (simp_all add: py_setitem_def)

lemma py_getitem_InrD: "py_getitem d k = Inr v \<Longrightarrow> \<exists>kvs. d = JObj kvs \<and> map_of kvs k = Some v"
  by (cases d) (simp_all add: py_getitem_def split: option.splits)

lemma map_of_update_same: "map_of (AList.update k v kvs) k = Some v"
  by (simp add: update_conv')

lemma map_of_update_other: "k' \<noteq> k \<Longrightarrow> map_of (AList.update k v kvs) k' = map_of kvs k'"
  by (simp add: update_conv')

lemma update_fixD: "AList.update k v kvs = kvs \<Longrightarrow> map_of kvs k = Some v"
  using map_of_update_same [of k v kvs] by simp

subsection \<open>Steps that are local to a set of keys\<close>

text \<open>
  The enricher is a sequence of steps, each of which reads and writes the entries of a few
  top-level keys of a dict. \<open>local_step K A\<close> says of a step \<open>A\<close> on dicts: a result of
  \<open>A\<close> is a dict that \<open>A\<close> maps to itself and that agrees with the input outside \<open>K\<close>,
  and whether \<open>A\<close> maps a dict to itself depends on its entries under \<open>K\<close> only. Steps
  that are local to disjoint key sets compose.
\<close>

definition local_step :: "string set \<Rightarrow> (json \<Rightarrow> error + json) \<Rightarrow> bool" where
  "local_step K A \<longleftrightarrow>
     (\<forall>kvs s'. A (JObj kvs) = Inr s' \<longrightarrow>
        A s' = Inr s' \<and>
        (\<exists>kvs'. s' = JObj kvs' \<and> (\<forall>k. k \<notin> K \<longrightarrow> map_of kvs' k = map_of kvs k))) \<and>
     (\<forall>kvs kvs2. A (JObj kvs) = Inr (JObj kvs) \<longrightarrow>
        (\<forall>k\<in>K. map_of kvs2 k = map_of kvs k) \<longrightarrow> A (JObj kvs2) = Inr (JObj kvs2))"

lemma local_stepI:
  assumes "\<And>kvs s'. A (JObj kvs) = Inr s' \<Longrightarrow> A s' = Inr s'"
    and "\<And>kvs s'. A (JObj kvs) = Inr s' \<Longrightarrow>
           \<exists>kvs'. s' = JObj kvs' \<and> (\<forall>k. k \<notin> K \<longrightarrow> map_of kvs' k = map_of kvs k)"
    and "\<And>kvs kvs2. A (JObj kvs) = Inr (JObj kvs) \<Longrightarrow>
           (\<forall>k\<in>K. map_of kvs2 k = map_of kvs k) \<Longrightarrow> A (JObj kvs2) = Inr (JObj kvs2)"
  shows "local_step K A"
  unfolding local_step_def using assms by blast

lemma local_step_idem: "local_step K A \<Longrightarrow> A (JObj kvs) = Inr s' \<Longrightarrow> A s' = Inr s'"
  unfolding local_step_def by blast

lemma local_step_frame:
  "local_step K A \<Longrightarrow> A (JObj kvs) = Inr s' \<Longrightarrow>
   \<exists>kvs'. s' = JObj kvs' \<and> (\<forall>k. k \<notin> K \<longrightarrow> map_of kvs' k = map_of kvs k)"
  unfolding local_step_def by blast

lemma local_step_fix:
  "local_step K A \<Longrightarrow> A (JObj kvs) = Inr (JObj kvs) \<Longrightarrow>
   (\<forall>k\<in>K. map_of kvs2 k = map_of kvs k) \<Longrightarrow> A (JObj kvs2) = Inr (JObj kvs2)"
  unfolding local_step_def by blast

lemma local_step_compose:
  assumes A: "local_step K A" and B: "local_step L B" and disj: "K \<inter> L = {}"
  shows "local_step (K \<union> L) (\<lambda>s. bind (A s) B)"
proof (rule local_stepI)
  fix kvs s'
  assume run: "bind (A (JObj kvs)) B = Inr s'"
  then obtain s1 where a: "A (JObj kvs) = Inr s1" and b: "B s1 = Inr s'"
    by (auto simp: bind_eq_Inr)
  from local_step_frame [OF A a] obtain kvs1 where s1: "s1 = JObj kvs1"
    and f1: "\<forall>k. k \<notin> K \<longrightarrow> map_of kvs1 k = map_of kvs k" by blast
  from local_step_frame [OF B b [unfolded s1]] obtain kvs' where s': "s' = JObj kvs'"
    and f2: "\<forall>k. k \<notin> L \<longrightarrow> map_of kvs' k = map_of kvs1 k" by blast
  have a1: "A (JObj kvs1) = Inr (JObj kvs1)"
    using local_step_idem [OF A a] s1 by simp
  have "\<forall>k\<in>K. map_of kvs' k = map_of kvs1 k"
    using f2 disj by blast
  from local_step_fix [OF A a1 this] have a': "A s' = Inr s'"
    using s' by simp
  have b': "B s' = Inr s'"
    using local_step_idem [OF B b [unfolded s1]] .
  show "bind (A s') B = Inr s'"
    by (simp add: a' b')
  show "\<exists>kvs'. s' = JObj kvs' \<and> (\<forall>k. k \<notin> K \<union> L \<longrightarrow> map_of kvs' k = map_of kvs k)"
    using s' f1 f2 by auto
next
  fix kvs kvs2
  assume run: "bind (A (JObj kvs)) B = Inr (JObj kvs)"
    and same: "\<forall>k\<in>K \<union> L. map_of kvs2 k = map_of kvs k"
  from run obtain s1 where a: "A (JObj kvs) = Inr s1" and b: "B s1 = Inr (JObj kvs)"
    by (auto simp: bind_eq_Inr)
  from local_step_frame [OF A a] obtain kvs1 where s1: "s1 = JObj kvs1" by blast
  from local_step_frame [OF B b [unfolded s1]]
  have f2: "\<forall>k. k \<notin> L \<longrightarrow> map_of kvs k = map_of kvs1 k" by blast
  have a1: "A (JObj kvs1) = Inr (JObj kvs1)"
    using local_step_idem [OF A a] s1 by simp
  have "\<forall>k\<in>K. map_of kvs k = map_of kvs1 k"
    using f2 disj by blast
  from local_step_fix [OF A a1 this] have afix: "A (JObj kvs) = Inr (JObj kvs)" .
  with a s1 have eq: "kvs1 = kvs" by simp
  from b s1 eq have bfix: "B (JObj kvs) = Inr (JObj kvs)" by simp
  have "A (JObj kvs2) = Inr (JObj kvs2)"
    using local_step_fix [OF A afix] same by blast
  moreover have "B (JObj kvs2) = Inr (JObj kvs2)"
    using local_step_fix [OF B bfix] same by blast
  ultimately show "bind (A (JObj kvs2)) B = Inr (JObj kvs2)"
    by simp
qed

lemma local_step_cong:
  assumes "local_step K A" and "\<And>kvs. B (JObj kvs) = A (JObj kvs)"
  shows "local_step K B"
proof (rule local_stepI)
  fix kvs s'
  assume "B (JObj kvs) = Inr s'"
  then have a: "A (JObj kvs) = Inr s'" by (simp add: assms(2))
  from local_step_frame [OF assms(1) a]
  show "\<exists>kvs'. s' = JObj kvs' \<and> (\<forall>k. k \<notin> K \<longrightarrow> map_of kvs' k = map_of kvs k)" .
  then obtain kvs' where "s' = JObj kvs'" by blast
  with local_step_idem [OF assms(1) a] show "B s' = Inr s'" by (simp add: assms(2))
next
  fix kvs kvs2
  assume "B (JObj kvs) = Inr (JObj kvs)" and "\<forall>k\<in>K. map_of kvs2 k = map_of kvs k"
  with local_step_fix [OF assms(1), of kvs kvs2] show "B (JObj kvs2) = Inr (JObj kvs2)"
    by (simp add: assms(2))
qed

subsection \<open>Steps that rewrite one entry\<close>

definition entry_step :: "string \<Rightarrow> (json \<Rightarrow> error + json) \<Rightarrow> json \<Rightarrow> error + json" where
  "entry_step k g s =
     (case s of
        JObj kvs \<Rightarrow>
          (case map_of kvs k of
             None \<Rightarrow> Inr s
           | Some b \<Rightarrow> bind (g b) (\<lambda>b'. Inr (JObj (AList.update k b' kvs))))
      | _ \<Rightarrow> Inl TypeError)"

definition items_step :: "(string \<Rightarrow> json \<Rightarrow> error + json) \<Rightarrow> json \<Rightarrow> error + json" where
  "items_step f c =
     bind (py_items c) (\<lambda>items. bind (map_items f items) (\<lambda>items'. Inr (JObj items')))"

lemma local_step_entry:
  assumes g: "\<And>b b'. g b = Inr b' \<Longrightarrow> g b' = Inr b'"
  shows "local_step {k} (entry_step k g)"
proof (rule local_stepI)
  fix kvs s'
  assume run: "entry_step k g (JObj kvs) = Inr s'"
  show "entry_step k g s' = Inr s'"
  proof (cases "map_of kvs k")
    case None
    with run show ?thesis by (auto simp: entry_step_def)
  next
    case (Some b)
    with run obtain b' where b': "g b = Inr b'" and s': "s' = JObj (AList.update k b' kvs)"
      by (auto simp: entry_step_def bind_eq_Inr)
    from g [OF b'] show ?thesis
      by (simp add: s' entry_step_def map_of_update_same)
  qed
  show "\<exists>kvs'. s' = JObj kvs' \<and> (\<forall>ka. ka \<notin> {k} \<longrightarrow> map_of kvs' ka = map_of kvs ka)"
    using run
    by (cases "map_of kvs k") (auto simp: entry_step_def bind_eq_Inr map_of_update_other)
next
  fix kvs kvs2
  assume fx: "entry_step k g (JObj kvs) = Inr (JObj kvs)"
    and same: "\<forall>ka\<in>{k}. map_of kvs2 ka = map_of kvs ka"
  show "entry_step k g (JObj kvs2) = Inr (JObj kvs2)"
  proof (cases "map_of kvs k")
    case None
    with same show ?thesis by (simp add: entry_step_def)
  next
    case (Some b)
    with fx obtain b' where b': "g b = Inr b'" and eq: "AList.update k b' kvs = kvs"
      by (auto simp: entry_step_def bind_eq_Inr)
    from update_fixD [OF eq] Some have "b' = b" by simp
    with b' same Some show ?thesis
      by (simp add: entry_step_def update_triv)
  qed
qed

lemma map_items_idem:
  assumes f: "\<And>k v v'. f k v = Inr v' \<Longrightarrow> f k v' = Inr v'"
  shows "map_items f kvs = Inr kvs' \<Longrightarrow> map_items f kvs' = Inr kvs'"
proof (induction kvs arbitrary: kvs')
  case Nil
  then show ?case by simp
next
  case (Cons kv rest)
  from Cons.prems obtain v vs where v: "f (fst kv) (snd kv) = Inr v"
    and vs: "map_items f rest = Inr vs" and kvs': "kvs' = (fst kv, v) # vs"
    by (auto simp: bind_eq_Inr)
  from f [OF v] Cons.IH [OF vs] show ?case
    by (simp add: kvs')
qed

lemma items_step_idem:
  assumes f: "\<And>k v v'. f k v = Inr v' \<Longrightarrow> f k v' = Inr v'"
  shows "items_step f c = Inr c' \<Longrightarrow> items_step f c' = Inr c'"
proof -
  assume "items_step f c = Inr c'"
  then obtain items items' where "map_items f items = Inr items'" and "c' = JObj items'"
    by (auto simp: items_step_def bind_eq_Inr)
  with map_items_idem [of f items items'] f show ?thesis
    by (simp add: items_step_def)
qed

subsection \<open>The loops of the enricher\<close>

lemma enhance_content_result:
  assumes "enhance_content gen c = Inr c'"
  shows "c' = c \<or>
         (\<exists>kvs ex. c = JObj kvs \<and> map_of kvs ''schema'' \<noteq> None \<and>
            c' = JObj (AList.update ''examples'' ex kvs))"
proof (cases c)
  case (JObj kvs)
  with assms show ?thesis
    by (auto simp: enhance_content_def bind_eq_Inr split: if_splits option.splits)
next
  case (JArr xs)
  with assms show ?thesis
    by (auto simp: enhance_content_def py_in_def py_getitem_def split: if_splits)
next
  case (JStr x)
  with assms show ?thesis
    by (auto simp: enhance_content_def py_in_def py_getitem_def split: if_splits)
qed (use assms in \<open>simp_all add: enhance_content_def py_in_def\<close>)

lemma enhance_content_idem:
  assumes "enhance_content gen c = Inr c'"
  shows "enhance_content gen c' = Inr c'"
  using enhance_content_result [OF assms]
proof
  assume "c' = c"
  with assms show ?thesis by simp
next
  assume "\<exists>kvs ex. c = JObj kvs \<and> map_of kvs ''schema'' \<noteq> None \<and>
            c' = JObj (AList.update ''examples'' ex kvs)"
  then show ?thesis
    by (auto simp: enhance_content_def map_of_update_same map_of_update_other)
qed

lemma enhance_contents_JObj:
  "enhance_contents gen (JObj kvs) =
   entry_step ''content'' (items_step (\<lambda>content_type. enhance_content gen)) (JObj kvs)"
  by (cases "map_of kvs ''content''")
     (simp_all add: enhance_contents_def entry_step_def items_step_def bind_assoc)

lemma enhance_contents_idem:
  assumes "enhance_contents gen x = Inr x'"
  shows "enhance_contents gen x' = Inr x'"
proof -
  from assms obtain kvs where x: "x = JObj kvs"
    by (auto simp: enhance_contents_def bind_eq_Inr dest: py_get_InrD)
  have "local_step {''content''} (enhance_contents gen)"
    by (rule local_step_cong [OF local_step_entry enhance_contents_JObj])
       (rule items_step_idem, rule enhance_content_idem)
  from local_step_idem [OF this assms [unfolded x]] show ?thesis .
qed

definition request_step :: "json \<Rightarrow> error + json" where
  "request_step = entry_step ''requestBody'' (enhance_contents generate_examples_from_schema)"

definition responses_step :: "json \<Rightarrow> error + json" where
  "responses_step =
     entry_step ''responses''
       (items_step (\<lambda>status_code. enhance_contents (generate_response_examples status_code)))"

lemma local_step_request: "local_step {''requestBody''} request_step"
  unfolding request_step_def by (rule local_step_entry) (rule enhance_contents_idem)

lemma local_step_responses: "local_step {''responses''} responses_step"
  unfolding responses_step_def
  by (rule local_step_entry) (rule items_step_idem, rule enhance_contents_idem)

lemma entry_step_JObj_result: "entry_step k g s = Inr s' \<Longrightarrow> \<exists>kvs'. s' = JObj kvs'"
  by (cases s) (auto simp: entry_step_def bind_eq_Inr split: option.splits)

lemma bind_cong_Inr: "(\<And>x. m = Inr x \<Longrightarrow> f x = f' x) \<Longrightarrow> bind m f = bind m f'"
  by (cases m) simp_all

lemma enhance_operation_JObj:
  "enhance_operation (JObj kvs) = bind (request_step (JObj kvs)) responses_step"
proof -
  have 1: "bind (py_in ''requestBody'' (JObj kvs))
             (\<lambda>has_body. if has_body then
                 bind (py_getitem (JObj kvs) ''requestBody'') (\<lambda>request_body.
                 bind (enhance_contents generate_examples_from_schema request_body)
                   (\<lambda>request_body'. Inr (mutated (JObj kvs) ''requestBody'' request_body')))
               else Inr (JObj kvs)) = request_step (JObj kvs)"
    by (cases "map_of kvs ''requestBody''") (simp_all add: request_step_def entry_step_def)
  have 2: "bind (py_get (JObj kvs1) ''responses'' (JObj [])) (\<lambda>responses.
           bind (py_items responses) (\<lambda>items.
           bind (map_items (\<lambda>status_code response.
                   enhance_contents (generate_response_examples status_code) response) items)
             (\<lambda>items'. Inr (mutated (JObj kvs1) ''responses'' (JObj items')))))
           = responses_step (JObj kvs1)" for kvs1
    by (cases "map_of kvs1 ''responses''")
       (simp_all add: responses_step_def entry_step_def items_step_def bind_assoc)
  have "enhance_operation (JObj kvs) =
        bind (request_step (JObj kvs)) (\<lambda>operation1.
          bind (py_get operation1 ''responses'' (JObj [])) (\<lambda>responses.
           bind (py_items responses) (\<lambda>items.
           bind (map_items (\<lambda>status_code response.
                   enhance_contents (generate_response_examples status_code) response) items)
             (\<lambda>items'. Inr (mutated operation1 ''responses'' (JObj items'))))))"
    unfolding enhance_operation_def 1 [symmetric] bind_assoc ..
  also have "\<dots> = bind (request_step (JObj kvs)) responses_step"
  proof (rule bind_cong_Inr)
    fix x assume "request_step (JObj kvs) = Inr x"
    then obtain kvs1 where "x = JObj kvs1"
      unfolding request_step_def by (blast dest: entry_step_JObj_result)
    then show "bind (py_get x ''responses'' (JObj [])) (\<lambda>responses.
           bind (py_items responses) (\<lambda>items.
           bind (map_items (\<lambda>status_code response.
                   enhance_contents (generate_response_examples status_code) response) items)
             (\<lambda>items'. Inr (mutated x ''responses'' (JObj items'))))) = responses_step x"
      by (simp only: 2)
  qed
  finally show ?thesis .
qed

lemma enhance_operation_InrD: "enhance_operation op = Inr op' \<Longrightarrow> \<exists>kvs. op = JObj kvs"
  by (cases op)
     (auto simp: enhance_operation_def py_in_def py_getitem_def py_get_def bind_eq_Inr
           split: if_splits)

lemma local_step_operation: "local_step {''requestBody'', ''responses''} enhance_operation"
proof -
  have "local_step ({''requestBody''} \<union> {''responses''}) (\<lambda>s. bind (request_step s) responses_step)"
    by (rule local_step_compose [OF local_step_request local_step_responses]) simp
  then have "local_step {''requestBody'', ''responses''} (\<lambda>s. bind (request_step s) responses_step)"
    by (simp add: insert_commute)
  then show ?thesis
    by (rule local_step_cong) (rule enhance_operation_JObj)
qed

lemma enhance_operation_idem:
  assumes "enhance_operation op = Inr op'"
  shows "enhance_operation op' = Inr op'"
proof -
  from enhance_operation_InrD [OF assms] obtain kvs where "op = JObj kvs" ..
  with local_step_idem [OF local_step_operation] assms show ?thesis by blast
qed

subsection \<open>The steps of \<^verbatim>\<open>_enhance_openapi_spec\<close>\<close>

definition set_servers :: "json \<Rightarrow> error + json" where
  "set_servers spec = py_setitem spec ''servers'' default_servers"

definition set_info :: "json \<Rightarrow> error + json" where
  "set_info spec =
     bind (py_get spec ''info'' (JObj [])) (\<lambda>info.
     bind (merge_info info) (\<lambda>info'.
     py_setitem spec ''info'' info'))"

definition set_security :: "json \<Rightarrow> error + json" where
  "set_security spec =
     bind (py_in ''components'' spec) (\<lambda>has_components.
     bind (if \<not> has_components then py_setitem spec ''components'' (JObj [])
           else Inr spec) (\<lambda>spec3.
     bind (py_getitem spec3 ''components'') (\<lambda>components.
     bind (py_in ''securitySchemes'' components) (\<lambda>has_schemes.
     if \<not> has_schemes then
       bind (py_setitem components ''securitySchemes'' default_security_schemes)
            (\<lambda>components'.
       Inr (mutated spec3 ''components'' components'))
     else Inr spec3))))"

definition set_tags :: "(string \<Rightarrow> string) \<Rightarrow> json \<Rightarrow> error + json" where
  "set_tags title spec =
     bind (py_in ''tags'' spec) (\<lambda>has_tags.
     if \<not> has_tags then
       bind (py_get spec ''paths'' (JObj [])) (\<lambda>paths.
       bind (generate_tags_from_paths title paths) (\<lambda>tags.
       py_setitem spec ''tags'' tags))
     else Inr spec)"

lemma enhance_openapi_spec_steps:
  "enhance_openapi_spec title spec =
   bind (set_servers spec) (\<lambda>s1. bind (set_info s1) (\<lambda>s2. bind (set_security s2)
     (\<lambda>s4. bind (set_tags title s4) enhance_paths)))"
  unfolding enhance_openapi_spec_def set_servers_def set_info_def set_security_def
    set_tags_def bind_assoc ..

lemma local_step_set_servers: "local_step {''servers''} set_servers"
proof (rule local_stepI)
  fix kvs s'
  assume "set_servers (JObj kvs) = Inr s'"
  then have s': "s' = JObj (AList.update ''servers'' default_servers kvs)"
    by (simp add: set_servers_def)
  show "set_servers s' = Inr s'"
    by (simp add: s' set_servers_def)
  show "\<exists>kvs'. s' = JObj kvs' \<and> (\<forall>k. k \<notin> {''servers''} \<longrightarrow> map_of kvs' k = map_of kvs k)"
    by (simp add: s' map_of_update_other)
next
  fix kvs kvs2
  assume "set_servers (JObj kvs) = Inr (JObj kvs)"
    and same: "\<forall>k\<in>{''servers''}. map_of kvs2 k = map_of kvs k"
  then have "AList.update ''servers'' default_servers kvs = kvs"
    by (simp add: set_servers_def)
  from update_fixD [OF this] same show "set_servers (JObj kvs2) = Inr (JObj kvs2)"
    by (simp add: set_servers_def update_triv)
qed

lemma merge_info_idem:
  assumes "merge_info info = Inr info'"
  shows "merge_info info' = Inr info'"
proof -
  from assms obtain kvs where info: "info = JObj kvs"
    by (cases info) (simp_all add: merge_info_def)
  let ?m = "AList.update ''termsOfService'' default_terms
              (AList.update ''license'' default_license
                (AList.update ''contact'' default_contact kvs))"
  from assms info have info': "info' = JObj ?m"
    by (simp add: merge_info_def)
  have c: "AList.update ''contact'' default_contact ?m = ?m"
    by (rule update_triv) (simp add: update_conv')
  have l: "AList.update ''license'' default_license ?m = ?m"
    by (rule update_triv) (simp add: update_conv')
  have t: "AList.update ''termsOfService'' default_terms ?m = ?m"
    by (rule update_triv) (simp add: update_conv')
  show ?thesis
    unfolding info' merge_info_def by (simp only: json.case c l t)
qed

lemma local_step_set_info: "local_step {''info''} set_info"
proof (rule local_stepI)
  fix kvs s'
  assume "set_info (JObj kvs) = Inr s'"
  then obtain info' where
    m: "merge_info (case map_of kvs ''info'' of None \<Rightarrow> JObj [] | Some v \<Rightarrow> v) = Inr info'"
    and s': "s' = JObj (AList.update ''info'' info' kvs)"
    by (auto simp: set_info_def bind_eq_Inr)
  show "set_info s' = Inr s'"
    by (simp add: s' set_info_def map_of_update_same merge_info_idem [OF m])
  show "\<exists>kvs'. s' = JObj kvs' \<and> (\<forall>k. k \<notin> {''info''} \<longrightarrow> map_of kvs' k = map_of kvs k)"
    by (simp add: s' map_of_update_other)
next
  fix kvs kvs2
  assume fx: "set_info (JObj kvs) = Inr (JObj kvs)"
    and same: "\<forall>k\<in>{''info''}. map_of kvs2 k = map_of kvs k"
  from fx obtain info' where
    m: "merge_info (case map_of kvs ''info'' of None \<Rightarrow> JObj [] | Some v \<Rightarrow> v) = Inr info'"
    and eq: "AList.update ''info'' info' kvs = kvs"
    by (auto simp: set_info_def bind_eq_Inr)
  from update_fixD [OF eq] have look: "map_of kvs ''info'' = Some info'" .
  with m have "merge_info info' = Inr info'" by simp
  with look same show "set_info (JObj kvs2) = Inr (JObj kvs2)"
    by (simp add: set_info_def update_triv)
qed

lemma set_security_JObj:
  "set_security (JObj kvs) =
     (case map_of kvs ''components'' of
        None \<Rightarrow>
          Inr (JObj (AList.update ''components''
                       (JObj [(''securitySchemes'', default_security_schemes)]) kvs))
      | Some c \<Rightarrow>
          bind (py_in ''securitySchemes'' c) (\<lambda>has_schemes.
            if has_schemes then Inr (JObj kvs)
            else bind (py_setitem c ''securitySchemes'' default_security_schemes)
                   (\<lambda>c'. Inr (JObj (AList.update ''components'' c' kvs)))))"
proof (cases "map_of kvs ''components''")
  case None
  then show ?thesis
    by (simp add: set_security_def map_of_update_same)
next
  case (Some c)
  then show ?thesis
    by (auto simp: set_security_def intro!: bind_cong_Inr)
qed

lemma set_security_result:
  assumes "set_security (JObj kvs) = Inr s'"
  shows "\<exists>kvs' c. s' = JObj kvs' \<and> map_of kvs' ''components'' = Some c \<and>
           py_in ''securitySchemes'' c = Inr True \<and>
           (\<forall>k. k \<noteq> ''components'' \<longrightarrow> map_of kvs' k = map_of kvs k)"
proof (cases "map_of kvs ''components''")
  case None
  with assms show ?thesis
    by (auto simp: set_security_JObj map_of_update_same map_of_update_other)
next
  case (Some c)
  with assms obtain h where h: "py_in ''securitySchemes'' c = Inr h"
    and r: "(if h then Inr (JObj kvs)
             else bind (py_setitem c ''securitySchemes'' default_security_schemes)
                    (\<lambda>c'. Inr (JObj (AList.update ''components'' c' kvs)))) = Inr s'"
    by (auto simp: set_security_JObj bind_eq_Inr)
  show ?thesis
  proof (cases h)
    case True
    with h r Some show ?thesis by auto
  next
    case False
    with r obtain c' where c': "py_setitem c ''securitySchemes'' default_security_schemes = Inr c'"
      and s': "s' = JObj (AList.update ''components'' c' kvs)"
      by (auto simp: bind_eq_Inr)
    from py_setitem_InrD [OF c'] obtain ckvs where "c = JObj ckvs" ..
    with c' have "c' = JObj (AList.update ''securitySchemes'' default_security_schemes ckvs)"
      by simp
    with s' show ?thesis
      by (simp add: map_of_update_same map_of_update_other)
  qed
qed

lemma set_security_fixed:
  "map_of kvs ''components'' = Some c \<Longrightarrow> py_in ''securitySchemes'' c = Inr True \<Longrightarrow>
   set_security (JObj kvs) = Inr (JObj kvs)"
  by (simp add: set_security_JObj)

lemma local_step_set_security: "local_step {''components''} set_security"
proof (rule local_stepI)
  fix kvs s'
  assume run: "set_security (JObj kvs) = Inr s'"
  from set_security_result [OF run] show "set_security s' = Inr s'"
    by (auto simp: set_security_fixed)
  from set_security_result [OF run]
  show "\<exists>kvs'. s' = JObj kvs' \<and> (\<forall>k. k \<notin> {''components''} \<longrightarrow> map_of kvs' k = map_of kvs k)"
    by auto
next
  fix kvs kvs2
  assume fx: "set_security (JObj kvs) = Inr (JObj kvs)"
    and same: "\<forall>k\<in>{''components''}. map_of kvs2 k = map_of kvs k"
  from set_security_result [OF fx] obtain c where "map_of kvs ''components'' = Some c"
    and "py_in ''securitySchemes'' c = Inr True" by auto
  with same show "set_security (JObj kvs2) = Inr (JObj kvs2)"
    by (simp add: set_security_fixed)
qed

lemma set_tags_result:
  assumes "set_tags title (JObj kvs) = Inr s'"
  shows "\<exists>kvs'. s' = JObj kvs' \<and> map_of kvs' ''tags'' \<noteq> None \<and>
           (\<forall>k. k \<noteq> ''tags'' \<longrightarrow> map_of kvs' k = map_of kvs k)"
  using assms
  by (cases "map_of kvs ''tags''")
     (auto simp: set_tags_def bind_eq_Inr map_of_update_same map_of_update_other)

lemma set_tags_fixed: "map_of kvs ''tags'' \<noteq> None \<Longrightarrow> set_tags title (JObj kvs) = Inr (JObj kvs)"
  by (simp add: set_tags_def)

lemma local_step_set_tags: "local_step {''tags''} (set_tags title)"
proof (rule local_stepI)
  fix kvs s'
  assume run: "set_tags title (JObj kvs) = Inr s'"
  from set_tags_result [OF run] show "set_tags title s' = Inr s'"
    by (auto simp: set_tags_fixed)
  from set_tags_result [OF run]
  show "\<exists>kvs'. s' = JObj kvs' \<and> (\<forall>k. k \<notin> {''tags''} \<longrightarrow> map_of kvs' k = map_of kvs k)"
    by auto
next
  fix kvs kvs2
  assume fx: "set_tags title (JObj kvs) = Inr (JObj kvs)"
    and same: "\<forall>k\<in>{''tags''}. map_of kvs2 k = map_of kvs k"
  from set_tags_result [OF fx] same show "set_tags title (JObj kvs2) = Inr (JObj kvs2)"
    by (auto simp: set_tags_fixed)
qed

lemma enhance_paths_JObj:
  "enhance_paths (JObj kvs) =
   entry_step ''paths''
     (items_step (\<lambda>path. items_step (\<lambda>method. enhance_operation))) (JObj kvs)"
  by (cases "map_of kvs ''paths''")
     (simp_all add: enhance_paths_def entry_step_def items_step_def [abs_def] bind_assoc)

lemma local_step_enhance_paths: "local_step {''paths''} enhance_paths"
  by (rule local_step_cong [OF local_step_entry enhance_paths_JObj])
     (rule items_step_idem, rule items_step_idem, rule enhance_operation_idem)

lemma local_step_enhance_openapi_spec:
  "local_step {''servers'', ''info'', ''components'', ''tags'', ''paths''} (enhance_openapi_spec title)"
proof -
  have 1: "local_step ({''tags''} \<union> {''paths''}) (\<lambda>s. bind (set_tags title s) enhance_paths)"
    by (rule local_step_compose [OF local_step_set_tags local_step_enhance_paths]) simp
  have 2: "local_step ({''components''} \<union> ({''tags''} \<union> {''paths''}))
             (\<lambda>s. bind (set_security s) (\<lambda>s4. bind (set_tags title s4) enhance_paths))"
    by (rule local_step_compose [OF local_step_set_security 1]) simp
  have 3: "local_step ({''info''} \<union> ({''components''} \<union> ({''tags''} \<union> {''paths''})))
             (\<lambda>s. bind (set_info s) (\<lambda>s2. bind (set_security s2)
                (\<lambda>s4. bind (set_tags title s4) enhance_paths)))"
    by (rule local_step_compose [OF local_step_set_info 2]) simp
  have 4: "local_step ({''servers''} \<union> ({''info''} \<union> ({''components''} \<union> ({''tags''} \<union> {''paths''}))))
             (\<lambda>s. bind (set_servers s) (\<lambda>s1. bind (set_info s1) (\<lambda>s2. bind (set_security s2)
                (\<lambda>s4. bind (set_tags title s4) enhance_paths))))"
    by (rule local_step_compose [OF local_step_set_servers 3]) simp
  have "{''servers''} \<union> ({''info''} \<union> ({''components''} \<union> ({''tags''} \<union> {''paths''})))
        = {''servers'', ''info'', ''components'', ''tags'', ''paths''}"
    by (simp only: insert_is_Un [symmetric] Un_empty_right)
  with 4 show ?thesis
    by (simp only: enhance_openapi_spec_steps [abs_def])
qed

lemma enhance_openapi_spec_InrD:
  "enhance_openapi_spec title spec = Inr spec' \<Longrightarrow> \<exists>kvs. spec = JObj kvs"
  by (auto simp: enhance_openapi_spec_steps set_servers_def bind_eq_Inr dest: py_setitem_InrD)

lemma enhance_openapi_spec_fixed_point:
  assumes "enhance_openapi_spec title spec = Inr spec'"
  shows "enhance_openapi_spec title spec' = Inr spec'"
proof -
  from enhance_openapi_spec_InrD [OF assms] obtain kvs where "spec = JObj kvs" ..
  with local_step_idem [OF local_step_enhance_openapi_spec] assms show ?thesis by blast
qed

text \<open>
  Claim C5: enrichment is idempotent. Running \<^verbatim>\<open>_enhance_openapi_spec\<close> on its own
  result returns that result unchanged (and a first run that raises has no result to run
  on): the servers and the three info keys are rewritten with the values they have, the
  security schemes and the tags are present and kept, and every content entry with a
  schema has its examples and is left alone.
\<close>

theorem enhance_openapi_spec_idempotent:
  "bind (enhance_openapi_spec title spec) (enhance_openapi_spec title) = enhance_openapi_spec title spec"
proof (cases "enhance_openapi_spec title spec")
  case (Inl e)
  then show ?thesis by simp
next
  case (Inr spec')
  with enhance_openapi_spec_fixed_point [OF Inr] show ?thesis by simp
qed

subsection \<open>What enrichment does to \<open>info\<close> and to the security schemes\<close>

lemma local_step_frame_key:
  "local_step K A \<Longrightarrow> A (JObj kvs) = Inr s' \<Longrightarrow> k \<notin> K \<Longrightarrow>
   \<exists>kvs'. s' = JObj kvs' \<and> map_of kvs' k = map_of kvs k"
  unfolding local_step_def by blast

lemma local_step_after_info:
  "local_step ({''components''} \<union> ({''tags''} \<union> {''paths''}))
     (\<lambda>s. bind (set_security s) (\<lambda>s4. bind (set_tags title s4) enhance_paths))"
proof -
  have "local_step ({''tags''} \<union> {''paths''}) (\<lambda>s. bind (set_tags title s) enhance_paths)"
    by (rule local_step_compose [OF local_step_set_tags local_step_enhance_paths]) simp
  then show ?thesis
    by (rule local_step_compose [OF local_step_set_security]) simp
qed

lemma local_step_after_security:
  "local_step ({''tags''} \<union> {''paths''}) (\<lambda>s. bind (set_tags title s) enhance_paths)"
  by (rule local_step_compose [OF local_step_set_tags local_step_enhance_paths]) simp

text \<open>
  Claim C3, as amended: enrichment keeps every key of \<open>info\<close> other than
  \<^verbatim>\<open>contact\<close>, \<^verbatim>\<open>license\<close> and \<^verbatim>\<open>termsOfService\<close> with its value, and sets these three
  keys to the fixed defaults whether or not \<open>info\<close> had them.
\<close>

theorem enhance_info_merge:
  assumes "enhance_openapi_spec title spec = Inr spec'"
  shows "\<exists>info info'.
           py_get spec ''info'' (JObj []) = Inr (JObj info) \<and>
           py_getitem spec' ''info'' = Inr (JObj info') \<and>
           map_of info' ''contact'' = Some default_contact \<and>
           map_of info' ''license'' = Some default_license \<and>
           map_of info' ''termsOfService'' = Some default_terms \<and>
           (\<forall>k. k \<notin> {''contact'', ''license'', ''termsOfService''} \<longrightarrow>
                map_of info' k = map_of info k)"
proof -
  from enhance_openapi_spec_InrD [OF assms] obtain kvs where spec: "spec = JObj kvs" ..
  define kvs1 where "kvs1 = AList.update ''servers'' default_servers kvs"
  define old where "old = (case map_of kvs ''info'' of None \<Rightarrow> JObj [] | Some v \<Rightarrow> v)"
  have look1: "map_of kvs1 ''info'' = map_of kvs ''info''"
    unfolding kvs1_def by (rule map_of_update_other) simp
  have "set_servers (JObj kvs) = Inr (JObj kvs1)"
    by (simp only: set_servers_def py_setitem_JObj kvs1_def)
  with assms spec
  have "bind (set_info (JObj kvs1))
          (\<lambda>s2. bind (set_security s2) (\<lambda>s4. bind (set_tags title s4) enhance_paths)) = Inr spec'"
    by (simp only: enhance_openapi_spec_steps bind_Inr)
  then obtain s2 where s2: "set_info (JObj kvs1) = Inr s2"
    and rest: "bind (set_security s2) (\<lambda>s4. bind (set_tags title s4) enhance_paths) = Inr spec'"
    unfolding bind_eq_Inr by blast
  have "set_info (JObj kvs1) =
        bind (merge_info old) (\<lambda>info'. Inr (JObj (AList.update ''info'' info' kvs1)))"
    by (simp only: set_info_def py_get_JObj py_setitem_JObj bind_Inr look1 old_def)
  with s2 have "bind (merge_info old)
                  (\<lambda>info'. Inr (JObj (AList.update ''info'' info' kvs1))) = Inr s2"
    by simp
  then obtain new where m: "merge_info old = Inr new"
    and s2': "s2 = JObj (AList.update ''info'' new kvs1)"
    unfolding bind_eq_Inr by blast
  from m obtain info where old: "old = JObj info"
    by (cases old) (simp_all add: merge_info_def)
  define merged where "merged = AList.update ''termsOfService'' default_terms
              (AList.update ''license'' default_license
                (AList.update ''contact'' default_contact info))"
  from m old have new: "new = JObj merged"
    by (simp add: merge_info_def merged_def)
  have "''info'' \<notin> {''components''} \<union> ({''tags''} \<union> {''paths''})" by simp
  from local_step_frame_key [OF local_step_after_info rest [unfolded s2'] this]
  obtain kvs' where spec': "spec' = JObj kvs'"
    and "map_of kvs' ''info'' = map_of (AList.update ''info'' new kvs1) ''info''"
    by (elim exE conjE)
  then have look: "map_of kvs' ''info'' = Some (JObj merged)"
    by (simp only: map_of_update_same new)
  have 1: "py_get spec ''info'' (JObj []) = Inr (JObj info)"
    using old by (simp only: spec py_get_JObj old_def)
  have 2: "py_getitem spec' ''info'' = Inr (JObj merged)"
    by (simp add: spec' look)
  have 3: "map_of merged ''contact'' = Some default_contact"
    unfolding merged_def by (simp add: update_conv')
  have 4: "map_of merged ''license'' = Some default_license"
    unfolding merged_def by (simp add: update_conv')
  have 5: "map_of merged ''termsOfService'' = Some default_terms"
    unfolding merged_def by (simp add: update_conv')
  have 6: "\<forall>k. k \<notin> {''contact'', ''license'', ''termsOfService''} \<longrightarrow>
                   map_of merged k = map_of info k"
    unfolding merged_def by (simp add: update_conv')
  from 1 2 3 4 5 6 show ?thesis by blast
qed

lemma set_security_components:
  assumes run: "set_security (JObj kvs) = Inr s'"
    and comps: "(case map_of kvs ''components'' of None \<Rightarrow> JObj [] | Some v \<Rightarrow> v) = JObj comps"
  shows "\<exists>kvs' comps'. s' = JObj kvs' \<and> map_of kvs' ''components'' = Some (JObj comps') \<and>
           map_of comps' ''securitySchemes'' =
             Some (case map_of comps ''securitySchemes'' of
                     None \<Rightarrow> default_security_schemes | Some v \<Rightarrow> v) \<and>
           (\<forall>k. k \<noteq> ''securitySchemes'' \<longrightarrow> map_of comps' k = map_of comps k)"
proof (cases "map_of kvs ''components''")
  case None
  with comps have e: "comps = []" by simp
  from None run
  have s': "s' = JObj (AList.update ''components''
                  (JObj [(''securitySchemes'', default_security_schemes)]) kvs)"
    by (simp add: set_security_JObj)
  show ?thesis
    unfolding s' e
    by (intro exI [of _ "AList.update ''components''
                  (JObj [(''securitySchemes'', default_security_schemes)]) kvs"]
              exI [of _ "[(''securitySchemes'', default_security_schemes)]"])
       (simp add: map_of_update_same)
next
  case (Some c)
  with comps have c: "c = JObj comps" by simp
  show ?thesis
  proof (cases "map_of comps ''securitySchemes''")
    case None
    with run Some c
    have s': "s' = JObj (AList.update ''components''
                (JObj (AList.update ''securitySchemes'' default_security_schemes comps)) kvs)"
      by (simp add: set_security_JObj)
    show ?thesis
      unfolding s'
      by (intro exI [of _ "AList.update ''components''
                (JObj (AList.update ''securitySchemes'' default_security_schemes comps)) kvs"]
              exI [of _ "AList.update ''securitySchemes'' default_security_schemes comps"])
         (simp add: map_of_update_same map_of_update_other None)
  next
    case (Some v)
    with run \<open>map_of kvs ''components'' = Some c\<close> c
    have s': "s' = JObj kvs"
      by (simp add: set_security_JObj)
    show ?thesis
      unfolding s'
      by (intro exI [of _ kvs] exI [of _ comps])
         (simp add: \<open>map_of kvs ''components'' = Some c\<close> c Some)
  qed
qed

text \<open>
  Claim C2, as amended: for a specification whose \<^verbatim>\<open>components\<close> entry is absent or a
  mapping, \<^verbatim>\<open>components.securitySchemes\<close> after enrichment is the two defaults when the
  input had no \<^verbatim>\<open>securitySchemes\<close> key, and is the input's value, untouched, when it had
  the key, whatever the value; the other entries of \<^verbatim>\<open>components\<close> are kept.
\<close>

theorem enhance_security_schemes:
  assumes "enhance_openapi_spec title spec = Inr spec'"
    and "py_get spec ''components'' (JObj []) = Inr (JObj comps)"
  shows "\<exists>comps'.
           py_getitem spec' ''components'' = Inr (JObj comps') \<and>
           map_of comps' ''securitySchemes'' =
             Some (case map_of comps ''securitySchemes'' of
                     None \<Rightarrow> default_security_schemes | Some v \<Rightarrow> v) \<and>
           (\<forall>k. k \<noteq> ''securitySchemes'' \<longrightarrow> map_of comps' k = map_of comps k)"
proof -
  from enhance_openapi_spec_InrD [OF assms(1)] obtain kvs where spec: "spec = JObj kvs" ..
  from assms(1) [unfolded spec enhance_openapi_spec_steps bind_eq_Inr]
  obtain s1 s2 s4 s5 where s1: "set_servers (JObj kvs) = Inr s1"
    and s2: "set_info s1 = Inr s2" and s4: "set_security s2 = Inr s4"
    and s5: "set_tags title s4 = Inr s5" and s6: "enhance_paths s5 = Inr spec'"
    by (elim exE conjE)
  from s5 s6 have rest: "bind (set_tags title s4) enhance_paths = Inr spec'"
    by (simp only: bind_Inr)
  have n1: "''components'' \<notin> {''servers''}" by simp
  have n2: "''components'' \<notin> {''info''}" by simp
  have n3: "''components'' \<notin> {''tags''} \<union> {''paths''}" by simp
  from local_step_frame_key [OF local_step_set_servers s1 n1] obtain kvs1 where
    k1: "s1 = JObj kvs1" "map_of kvs1 ''components'' = map_of kvs ''components''"
    by (elim exE conjE)
  from local_step_frame_key [OF local_step_set_info s2 [unfolded k1(1)] n2] obtain kvs2 where
    k2: "s2 = JObj kvs2" "map_of kvs2 ''components'' = map_of kvs1 ''components''"
    by (elim exE conjE)
  from assms(2) have "(case map_of kvs ''components'' of None \<Rightarrow> JObj [] | Some v \<Rightarrow> v) = JObj comps"
    by (simp only: spec py_get_JObj sum.inject)
  then have "(case map_of kvs2 ''components'' of None \<Rightarrow> JObj [] | Some v \<Rightarrow> v) = JObj comps"
    by (simp only: k1(2) k2(2))
  from set_security_components [OF s4 [unfolded k2(1)] this] obtain kvs4 comps' where
    k4: "s4 = JObj kvs4" "map_of kvs4 ''components'' = Some (JObj comps')"
    and c': "map_of comps' ''securitySchemes'' =
             Some (case map_of comps ''securitySchemes'' of
                     None \<Rightarrow> default_security_schemes | Some v \<Rightarrow> v)"
      "\<forall>k. k \<noteq> ''securitySchemes'' \<longrightarrow> map_of comps' k = map_of comps k"
    by (elim exE conjE)
  from local_step_frame_key [OF local_step_after_security rest [unfolded k4(1)] n3]
  obtain kvs' where
    k': "spec' = JObj kvs'" "map_of kvs' ''components'' = map_of kvs4 ''components''"
    by (elim exE conjE)
  have "py_getitem spec' ''components'' = Inr (JObj comps')"
    by (simp add: k' k4(2))
  with c' show ?thesis by (intro exI [of _ comps'] conjI)
qed

text \<open>
  A specification as a framework exports it: it declares a contact, has one operation and
  no \<^verbatim>\<open>components\<close>.
\<close>

definition plain_spec :: json where
  "plain_spec =
     JObj [(''openapi'', JStr ''3.0.2''),
           (''info'',
            JObj [(''title'', JStr ''Shop''), (''version'', JStr ''0.1.0''),
                  (''contact'', JObj [(''name'', JStr ''Shop team'')])]),
           (''paths'',
            JObj [(''/items'',
              JObj [(''get'',
                JObj [(''summary'', JStr ''List items''),
                      (''responses'',
                       JObj [(''200'',
                         JObj [(''description'', JStr ''ok''),
                               (''content'',
                                JObj [(''application/json'',
                                  JObj [(''schema'',
                                    JObj [(''type'', JStr ''array''),
                                          (''items'', JObj [(''type'', JStr ''integer'')])])])])])])])])])]"


lemma plain_run: "enhance_openapi_spec ascii_title plain_spec = Inr (projr (enhance_openapi_spec ascii_title plain_spec))"
  by code_simp

theorem enhance_security_schemes_witness:
  "(\<exists>spec'. enhance_openapi_spec ascii_title plain_spec = Inr spec' \<and>
      (\<exists>comps'. py_getitem spec' ''components'' = Inr (JObj comps') \<and>
         map_of comps' ''securitySchemes'' = Some default_security_schemes)) \<and>
   py_get plain_spec ''components'' (JObj []) = Inr (JObj [])"
proof -
  have g: "py_get plain_spec ''components'' (JObj []) = Inr (JObj [])"
    by (simp add: plain_spec_def)
  from enhance_security_schemes [OF plain_run g] g plain_run show ?thesis
    by auto
qed

text \<open>
  Claim C2, as stated, fails on the builder's base specification: \<^verbatim>\<open>_get_base_spec\<close>
  stores the key \<^verbatim>\<open>securitySchemes\<close> with an empty mapping, so enrichment leaves it
  empty.
\<close>

theorem base_spec_security_schemes_empty:
  "bind (enhance_openapi_spec ascii_title get_base_spec)
     (\<lambda>spec'. bind (py_getitem spec' ''components'')
        (\<lambda>components. py_getitem components ''securitySchemes'')) = Inr (JObj []) \<and>
   JObj [] \<noteq> default_security_schemes"
  by code_simp

theorem enhance_info_merge_witness:
  "\<exists>spec'. enhance_openapi_spec ascii_title plain_spec = Inr spec' \<and>
     (\<exists>info'. py_getitem spec' ''info'' = Inr (JObj info') \<and>
        map_of info' ''contact'' = Some default_contact \<and>
        map_of info' ''title'' = Some (JStr ''Shop''))"
proof -
  from enhance_info_merge [OF plain_run] obtain info info' where
    a: "py_get plain_spec ''info'' (JObj []) = Inr (JObj info)"
    and b: "py_getitem (projr (enhance_openapi_spec ascii_title plain_spec)) ''info'' = Inr (JObj info')"
    and c: "map_of info' ''contact'' = Some default_contact"
    and d: "\<forall>k. k \<notin> {''contact'', ''license'', ''termsOfService''} \<longrightarrow>
                map_of info' k = map_of info k"
    by blast
  from a have "map_of info ''title'' = Some (JStr ''Shop'')"
    by (auto simp: plain_spec_def)
  with d have "map_of info' ''title'' = Some (JStr ''Shop'')"
    by simp
  with plain_run b c show ?thesis by blast
qed

text \<open>
  Claim C3, as stated, fails on a key that \<open>info\<close> already has: the declared contact is
  replaced by the default one.
\<close>

theorem enhance_info_contact_overwritten:
  "bind (py_getitem plain_spec ''info'') (\<lambda>info. py_getitem info ''contact'')
     = Inr (JObj [(''name'', JStr ''Shop team'')]) \<and>
   bind (enhance_openapi_spec ascii_title plain_spec)
     (\<lambda>spec'. bind (py_getitem spec' ''info'') (\<lambda>info. py_getitem info ''contact''))
     = Inr default_contact \<and>
   default_contact \<noteq> JObj [(''name'', JStr ''Shop team'')]"
  by code_simp

subsection \<open>The enricher stays inside the model\<close>

text \<open>
  No run of the enricher ends in \<open>Unmodelled\<close>: example synthesis raises only
  \<^verbatim>\<open>AttributeError\<close>, and \<^verbatim>\<open>_create_minimal_example\<close> runs only after
  \<^verbatim>\<open>_create_example_from_schema\<close> has iterated \<^verbatim>\<open>properties\<close> as a dict.
\<close>

definition modelled :: "error + 'a \<Rightarrow> bool" where
  "modelled m \<longleftrightarrow> m \<noteq> Inl Unmodelled"

lemma modelled_Inr [simp]: "modelled (Inr x)"
  by (simp add: modelled_def)

lemma modelled_Inl [simp]: "modelled (Inl e) \<longleftrightarrow> e \<noteq> Unmodelled"
  by (simp add: modelled_def)

lemma modelled_bind:
  "modelled m \<Longrightarrow> (\<And>x. m = Inr x \<Longrightarrow> modelled (f x)) \<Longrightarrow> modelled (bind m f)"
  by (cases m) simp_all

lemma modelled_if: "modelled a \<Longrightarrow> modelled b \<Longrightarrow> modelled (if c then a else b)"
  by simp

lemma modelled_py [simp]:
  "modelled (py_get d k dflt)" "modelled (py_in k d)" "modelled (py_getitem d k)"
  "modelled (py_setitem d k v)" "modelled (py_items d)" "modelled (py_iter d)"
  by (cases d; simp add: py_get_def py_in_def py_getitem_def py_setitem_def py_items_def
        py_iter_def split: option.splits)+

lemma modelled_create_example:
  "modelled (create_example_value field_name schema)"
  "modelled (create_example_from_schema schema')"
  "modelled (create_example_props props)"
proof (induction field_name schema and schema' and props
    rule: create_example_value_create_example_from_schema_create_example_props.induct)
  case (1 field_name schema)
  show ?case
  proof (cases schema)
    case (JObj kvs)
    show ?thesis
      using 1 [OF JObj refl refl] unfolding JObj
      by (subst create_example_value.simps)
         (auto simp: Let_def modelled_def split: option.splits sum.splits)
  qed (simp_all add: create_example_value.simps)
next
  case (2 schema)
  show ?case
  proof (cases schema)
    case (JObj kvs)
    show ?thesis
      using 2 [OF JObj] unfolding JObj
      by (subst create_example_from_schema.simps)
         (auto simp: modelled_def split: option.splits sum.splits json.splits)
  qed (simp_all add: create_example_from_schema.simps)
next
  case 3
  show ?case by simp
next
  case (4 prop_name prop_schema rest)
  then show ?case
    by (auto simp: modelled_def split: sum.splits)
qed

lemma modelled_minimal_fields:
  "modelled (minimal_fields (JObj props) fs example)"
proof (induction fs arbitrary: example)
  case Nil
  show ?case by simp
next
  case (Cons field_name rest)
  show ?case
  proof (cases field_name)
    case (JStr name)
    show ?thesis
    proof (cases "map_of props name")
      case None
      with JStr Cons show ?thesis by simp
    next
      case (Some prop_schema)
      show ?thesis
      proof (cases "create_example_value name prop_schema")
        case (Inl e)
        with modelled_create_example(1) [of name prop_schema] have "e \<noteq> Unmodelled" by simp
        with JStr Some Inl show ?thesis by simp
      next
        case (Inr v)
        with JStr Some Cons show ?thesis by simp
      qed
    qed
  qed (use Cons in simp_all)
qed

lemma object_properties:
  assumes "create_example_from_schema schema = Inr v"
    and "py_get schema ''type'' JNull = Inr (JStr ''object'')"
  shows "\<exists>props. py_get schema ''properties'' (JObj []) = Inr (JObj props)"
proof -
  from assms(2) obtain kvs where schema: "schema = JObj kvs"
    by (cases schema) (simp_all add: py_get_def)
  with assms(2) have t: "map_of kvs ''type'' = Some (JStr ''object'')"
    by (simp add: py_get_def split: option.splits)
  from assms(1) show ?thesis
    unfolding schema
    by (subst (asm) create_example_from_schema.simps)
       (simp add: t py_get_def split: option.splits json.splits)
qed

lemma modelled_create_minimal_example:
  assumes "py_get schema ''properties'' (JObj []) = Inr (JObj props)"
  shows "modelled (create_minimal_example schema)"
  unfolding create_minimal_example_def
  by (intro modelled_bind modelled_py) (auto simp: assms modelled_minimal_fields)

lemma modelled_ifI:
  "(c \<Longrightarrow> modelled a) \<Longrightarrow> (\<not> c \<Longrightarrow> modelled b) \<Longrightarrow> modelled (if c then a else b)"
  by simp

lemma modelled_generate_examples_from_schema:
  "modelled (generate_examples_from_schema schema)"
  unfolding generate_examples_from_schema_def
  apply (intro modelled_bind modelled_ifI modelled_py modelled_Inr modelled_create_example)
  apply (auto dest: object_properties intro: modelled_create_minimal_example)
  done

lemma modelled_generate_response_examples:
  "modelled (generate_response_examples status_code schema)"
  unfolding generate_response_examples_def
  by (intro modelled_if modelled_bind modelled_Inr modelled_create_example)

lemma modelled_map_items:
  "(\<And>k v. modelled (f k v)) \<Longrightarrow> modelled (map_items f kvs)"
  by (induction kvs) (auto intro!: modelled_bind)

lemma modelled_enhance_content:
  "(\<And>schema. modelled (gen schema)) \<Longrightarrow> modelled (enhance_content gen content)"
  unfolding enhance_content_def
  by (intro modelled_bind modelled_if modelled_py modelled_Inr)

lemma modelled_enhance_contents:
  "(\<And>schema. modelled (gen schema)) \<Longrightarrow> modelled (enhance_contents gen x)"
  unfolding enhance_contents_def
  by (intro modelled_bind modelled_py modelled_Inr modelled_map_items modelled_enhance_content)

lemma modelled_enhance_operation: "modelled (enhance_operation operation)"
  unfolding enhance_operation_def
  by (intro modelled_bind modelled_if modelled_py modelled_Inr modelled_map_items
        modelled_enhance_contents modelled_generate_examples_from_schema
        modelled_generate_response_examples)

lemma modelled_enhance_paths: "modelled (enhance_paths spec)"
  unfolding enhance_paths_def
  by (intro modelled_bind modelled_py modelled_Inr modelled_map_items modelled_enhance_operation)

lemma modelled_merge_info: "modelled (merge_info info)"
  by (cases info) (simp_all add: merge_info_def)

lemma modelled_generate_tags_from_paths: "modelled (generate_tags_from_paths title paths)"
  by (cases paths) (simp_all add: generate_tags_from_paths_def)

text \<open>Enrichment never reaches a case that the model leaves out.\<close>

lemma enhance_openapi_spec_modelled: "enhance_openapi_spec title spec \<noteq> Inl Unmodelled"
proof -
  have "modelled (enhance_openapi_spec title spec)"
    unfolding enhance_openapi_spec_def
    by (intro modelled_bind modelled_if modelled_py modelled_Inr modelled_merge_info
          modelled_generate_tags_from_paths modelled_enhance_paths)
  then show ?thesis by (simp add: modelled_def)
qed

section \<open>Route insertion: properties\<close>

text \<open>
  For the handler above \<^verbatim>\<open>_extract_docstring\<close> finds no doc comment, and inserting
  its route raises.
\<close>

lemma extract_docstring_users_handler: "extract_docstring users_handler 2 = None"
  by code_simp

lemma handler_without_doc_comment:
  "add_route_to_spec get_base_spec
     (route_record ''/users'' [''GET''] ''list_users'' (extract_docstring users_handler 2))
   = Inl AttributeError"
  by code_simp

text \<open>The same holds for every path, handler name and non-empty method list.\<close>

lemma add_route_without_docstring:
  "add_route_to_spec get_base_spec (route_record path (method # methods) func None)
   = Inl AttributeError"
  by (simp add: add_route_to_spec_def get_base_spec_def route_record_def py_iter_def
        route_operation_def first_line_def Let_def)

text \<open>
  Claim C1 (a route whose docstring is \<^verbatim>\<open>None\<close> gets the summary
  \<^verbatim>\<open>"{METHOD} {path}"\<close> and its operation is inserted). The route dict always stores the
  key \<^verbatim>\<open>'docstring'\<close>, so \<^verbatim>\<open>route.get('docstring', default)\<close> returns the stored
  \<^verbatim>\<open>None\<close>, never the default, and \<^verbatim>\<open>None.split\<close> raises before any operation is
  inserted.
\<close>

theorem add_route_docstring_none:
  "add_route_to_spec get_base_spec (route_record ''/users'' [''GET''] ''list_users'' None)
   = Inl AttributeError"
  by code_simp

end
